theory Spec2Isabelle
  imports Complex_Main
begin

section \<open>JavaScript values read back from the progress store\<close>

text \<open>
  The progress record is kept in one local-storage slot as JSON text. What \<open>JSON.parse\<close>
  returns is dynamically typed, so the values \<open>load\<close> inspects are modelled by a datatype
  of JavaScript values. Numbers are reals, with the two infinities apart: a JSON number
  beyond the range of a double, such as \<open>1e999\<close>, parses to \<open>Infinity\<close> (\<open>JInfinity True\<close>) or
  \<open>-Infinity\<close> (\<open>JInfinity False\<close>). JSON text cannot denote NaN.
\<close>

datatype jsval =
    JUndefined
  | JNull
  | JBool bool
  | JNum real
  | JInfinity bool
  | JStr string
  | JArr "jsval list"
  | JObj "(string \<times> jsval) list"

datatype js_error = TypeError

text \<open>JavaScript truthiness, as used by \<open>!p\<close> and \<open>!!x\<close>.\<close>

fun truthy :: "jsval \<Rightarrow> bool" where
  "truthy JUndefined = False"
| "truthy JNull = False"
| "truthy (JBool b) = b"
| "truthy (JNum x) = (x \<noteq> 0)"
| "truthy (JInfinity positive) = True"
| "truthy (JStr s) = (s \<noteq> [])"
| "truthy (JArr xs) = True"
| "truthy (JObj kvs) = True"

text \<open>
  Property read \<open>v.k\<close>. Reading a property of \<open>undefined\<close> or \<open>null\<close> throws a TypeError.
  The only keys the program reads are \<open>stars\<close>, \<open>systems\<close>, \<open>facts\<close>, \<open>heart\<close> and \<open>lungs\<close>,
  none of which is a property of a number, boolean, string or array.
\<close>

fun get_prop :: "jsval \<Rightarrow> string \<Rightarrow> js_error + jsval" where
  "get_prop JUndefined k = Inl TypeError"
| "get_prop JNull k = Inl TypeError"
| "get_prop (JObj kvs) k = Inr (case map_of kvs k of None \<Rightarrow> JUndefined | Some v \<Rightarrow> v)"
| "get_prop v k = Inr JUndefined"

text \<open>Optional chaining \<open>v?.k\<close>.\<close>

definition opt_chain :: "jsval \<Rightarrow> string \<Rightarrow> js_error + jsval" where
  "opt_chain v k = (if v = JUndefined \<or> v = JNull then Inr JUndefined else get_prop v k)"

text \<open>Nullish coalescing \<open>v ?? d\<close>.\<close>

definition nullish :: "jsval \<Rightarrow> jsval \<Rightarrow> jsval" where
  "nullish v d = (if v = JUndefined \<or> v = JNull then d else v)"

text \<open>\<open>Array.isArray(v) ? v : []\<close>\<close>

fun array_or_empty :: "jsval \<Rightarrow> jsval list" where
  "array_or_empty (JArr xs) = xs"
| "array_or_empty v = []"

text \<open>
  \<open>loadProgress\<close>: \<open>try { return JSON.parse(localStorage.getItem(storeKey) || "null"); }
  catch { return null; }\<close>. The slot is \<open>None\<close> when the key is absent. \<open>JSON.parse\<close> is a
  built-in and is taken as a parameter; it returns \<open>None\<close> where the built-in throws.
\<close>

definition loadProgress :: "(string \<Rightarrow> jsval option) \<Rightarrow> string option \<Rightarrow> jsval" where
  "loadProgress JSON_parse slot =
     (let raw = (case slot of None \<Rightarrow> ''null'' | Some t \<Rightarrow> if t = [] then ''null'' else t)
      in case JSON_parse raw of None \<Rightarrow> JNull | Some v \<Rightarrow> v)"

text \<open>The three progress fields of \<open>G\<close> as \<open>load\<close> leaves them (dynamically typed).\<close>

record jsprogress =
  js_stars :: jsval
  js_heart :: bool
  js_lungs :: bool
  js_facts :: "jsval list"

text \<open>The progress fields of the freshly built \<open>G\<close> object.\<close>

definition fresh_progress :: jsprogress where
  "fresh_progress = \<lparr>js_stars = JNum 0, js_heart = False, js_lungs = False, js_facts = []\<rparr>"

text \<open>
  \<open>G.load\<close>. Every property read is a possible TypeError, so the result is a sum; the
  early return \<open>if (!p) return;\<close> leaves \<open>G\<close> as it is.
\<close>

definition load :: "(string \<Rightarrow> jsval option) \<Rightarrow> string option \<Rightarrow> jsprogress \<Rightarrow> js_error + jsprogress" where
  "load JSON_parse slot G =
     (let p = loadProgress JSON_parse slot in
      if \<not> truthy p then Inr G
      else case get_prop p ''stars'' of Inl e \<Rightarrow> Inl e | Inr st \<Rightarrow>
           case get_prop p ''systems'' of Inl e \<Rightarrow> Inl e | Inr sy \<Rightarrow>
           case opt_chain sy ''heart'' of Inl e \<Rightarrow> Inl e | Inr h \<Rightarrow>
           case opt_chain sy ''lungs'' of Inl e \<Rightarrow> Inl e | Inr l \<Rightarrow>
           case get_prop p ''facts'' of Inl e \<Rightarrow> Inl e | Inr f \<Rightarrow>
             Inr (G\<lparr>js_stars := nullish st (JNum 0),
                    js_heart := truthy h, js_lungs := truthy l,
                    js_facts := array_or_empty f\<rparr>))"

section \<open>The session object and the scenes\<close>

datatype level = Circulatory | Lungs

text \<open>The toasts of the hub scene, by their message.\<close>

datatype notice = EarnStarFirst | HeartRepaired | RepairHeartFirst

record virus =
  active :: bool
  vulnerable :: bool
  tint :: "nat option"

text \<open>
  One record holds the global object \<open>G\<close> (first block), the fields of the running level
  scene (second block), what the engine keeps for that scene (third block) and the hub
  scene's buttons and toasts (last block). Health, energy, score and stars are integers;
  clock values and durations are milliseconds. \<open>stored\<close> is the object last handed to
  \<open>saveProgress\<close>; the slot holds its \<open>JSON.stringify\<close> text.
\<close>

record game =
  score :: int
  health :: int
  energy :: int
  level :: int
  powerMode :: bool
  powerTimer :: real
  stars :: int
  systems_heart :: bool
  systems_lungs :: bool
  facts :: "string list"
  stored :: "jsval option"

  completed :: bool
  lastHitAt :: real
  brain :: bool
  virus_eaten :: bool
  jumpBufferTime :: real
  coyoteTime :: real

  orbs :: nat
  powerups :: nat
  viruses :: "virus list"
  player_body :: bool
  player_tint :: "nat option"
  velocityX :: int
  velocityY :: int
  now :: real
  physics_paused :: bool
  restart_pending :: bool

  heartBtn_enabled :: bool
  lungsBtn_enabled :: bool
  toasts :: "notice list"

subsection \<open>Persistence and the React helpers\<close>

text \<open>The object literal \<open>{ stars, systems, facts }\<close> that \<open>persist\<close> hands to \<open>saveProgress\<close>.\<close>

definition progress_json :: "game \<Rightarrow> jsval" where
  "progress_json g =
     JObj [(''stars'', JNum (of_int (stars g))),
           (''systems'', JObj [(''heart'', JBool (systems_heart g)), (''lungs'', JBool (systems_lungs g))]),
           (''facts'', JArr (map JStr (facts g)))]"

definition persist :: "game \<Rightarrow> game" where
  "persist g = g\<lparr>stored := Some (progress_json g)\<rparr>"

definition addStars :: "int \<Rightarrow> game \<Rightarrow> game" where
  "addStars n g = persist (g\<lparr>stars := max 0 (stars g + n)\<rparr>)"

definition addFact :: "string \<Rightarrow> game \<Rightarrow> game" where
  "addFact t g = (if t \<notin> set (facts g) then persist (g\<lparr>facts := facts g @ [t]\<rparr>) else g)"

datatype system_id = Heart | LungsSys

fun setSystem :: "system_id \<Rightarrow> bool \<Rightarrow> game \<Rightarrow> game" where
  "setSystem Heart v g = persist (g\<lparr>systems_heart := v\<rparr>)"
| "setSystem LungsSys v g = persist (g\<lparr>systems_lungs := v\<rparr>)"

definition resetStatsForLevel :: "game \<Rightarrow> game" where
  "resetStatsForLevel g = g\<lparr>health := 100, energy := 0, powerMode := False, powerTimer := 0\<rparr>"

subsection \<open>Level constants\<close>

fun maxE :: "level \<Rightarrow> int" where
  "maxE Circulatory = 10"
| "maxE Lungs = 12"

fun orb_count :: "level \<Rightarrow> nat" where
  "orb_count Circulatory = 12"
| "orb_count Lungs = 14"

fun powerup_score :: "level \<Rightarrow> int" where
  "powerup_score Circulatory = 100"
| "powerup_score Lungs = 120"

fun virus_score :: "level \<Rightarrow> int" where
  "virus_score Circulatory = 200"
| "virus_score Lungs = 220"

text \<open>The tint given to vulnerable viruses: \<open>0x5dade2\<close> and \<open>0x2ecc71\<close>.\<close>

fun vulnerable_tint :: "level \<Rightarrow> nat" where
  "vulnerable_tint Circulatory = 6139362"
| "vulnerable_tint Lungs = 3066993"

definition player_power_tint :: nat where
  "player_power_tint = 6750156"

definition HIT_COOLDOWN_MS :: real where
  "HIT_COOLDOWN_MS = 650"

definition JUMP_BUFFER_MS :: real where
  "JUMP_BUFFER_MS = 140"

definition COYOTE_TIME_MS :: real where
  "COYOTE_TIME_MS = 140"

definition JUMP_VELOCITY :: int where
  "JUMP_VELOCITY = - 460"

definition POWER_MS :: real where
  "POWER_MS = 6000"

fun system_of :: "level \<Rightarrow> system_id" where
  "system_of Circulatory = Heart"
| "system_of Lungs = LungsSys"

fun fact1 :: "level \<Rightarrow> string" where
  "fact1 Circulatory = ''The heart pumps ~100,000 times per day.''"
| "fact1 Lungs = ''Alveoli are tiny sacs where oxygen enters the blood.''"

fun fact2 :: "level \<Rightarrow> string" where
  "fact2 Circulatory = ''Valves prevent backflow, keeping blood moving the right way.''"
| "fact2 Lungs = ''The diaphragm helps pull air into the lungs by creating negative pressure.''"

subsection \<open>Level scenes: creation\<close>

text \<open>
  \<open>enablePlayer\<close> makes a new sprite with a physics body; \<open>enableCursors\<close> clears the
  two recorded times of the jump logic.
\<close>

definition enablePlayer :: "game \<Rightarrow> game" where
  "enablePlayer g = g\<lparr>player_body := True, player_tint := None, velocityX := 0, velocityY := 0\<rparr>"

definition enableCursors :: "game \<Rightarrow> game" where
  "enableCursors g = g\<lparr>jumpBufferTime := 0, coyoteTime := 0\<rparr>"

definition new_virus :: virus where
  "new_virus = \<lparr>active = True, vulnerable = False, tint = None\<rparr>"

text \<open>Two viruses in the Circulatory level, three in the Lungs level.\<close>

fun initial_viruses :: "level \<Rightarrow> virus list" where
  "initial_viruses Circulatory = [new_virus, new_virus]"
| "initial_viruses Lungs = [new_virus, new_virus, new_virus]"

text \<open>
  \<open>create\<close> of \<open>CirculatoryLevel\<close> and \<open>LungsLevel\<close>. Starting a scene gives it a new,
  running physics world and an empty operation queue, so the engine's pause flag and the
  queued restart are cleared here. Positions and velocities are not modelled.
\<close>

definition create :: "level \<Rightarrow> game \<Rightarrow> game" where
  "create L g =
     (let g1 = resetStatsForLevel (g\<lparr>physics_paused := False, restart_pending := False\<rparr>);
          g2 = g1\<lparr>completed := False, lastHitAt := 0\<rparr>;
          g3 = enableCursors (enablePlayer g2)
      in g3\<lparr>orbs := orb_count L, powerups := 1,
             viruses := initial_viruses L,
             brain := False, virus_eaten := False\<rparr>)"

subsection \<open>Power mode\<close>

definition activatePower :: "level \<Rightarrow> real \<Rightarrow> game \<Rightarrow> game" where
  "activatePower L ms g =
     g\<lparr>powerMode := True, powerTimer := ms, player_tint := Some player_power_tint,
       viruses := map (\<lambda>v. v\<lparr>vulnerable := True, tint := Some (vulnerable_tint L)\<rparr>) (viruses g)\<rparr>"

definition endPower :: "game \<Rightarrow> game" where
  "endPower g =
     g\<lparr>powerMode := False, powerTimer := 0, player_tint := None,
       viruses := map (\<lambda>v. v\<lparr>vulnerable := False, tint := None\<rparr>) (viruses g)\<rparr>"

subsection \<open>Overlap handlers\<close>

text \<open>\<open>orb.destroy(); if (G.energy<maxE) G.energy+=1; G.score+=10;\<close>\<close>

definition orb_handler :: "level \<Rightarrow> game \<Rightarrow> game" where
  "orb_handler L g =
     (let g1 = g\<lparr>orbs := orbs g - 1\<rparr>;
          g2 = (if energy g1 < maxE L then g1\<lparr>energy := energy g1 + 1\<rparr> else g1)
      in g2\<lparr>score := score g2 + 10\<rparr>)"

text \<open>\<open>p.destroy(); this.activatePower(6000); this._brain=true; G.score+=100;\<close>\<close>

definition powerup_handler :: "level \<Rightarrow> game \<Rightarrow> game" where
  "powerup_handler L g =
     (let g1 = g\<lparr>powerups := powerups g - 1\<rparr>;
          g2 = activatePower L 6000 g1;
          g3 = g2\<lparr>brain := True\<rparr>
      in g3\<lparr>score := score g3 + powerup_score L\<rparr>)"

text \<open>
  The virus handler, for the virus at index \<open>i\<close> of the group. A destroyed virus leaves
  the group. A hostile contact returns early inside the cooldown window; otherwise it
  records the time, subtracts 10 and clamps at 0.
\<close>

definition virus_handler :: "level \<Rightarrow> nat \<Rightarrow> game \<Rightarrow> game" where
  "virus_handler L i g =
     (let v = viruses g ! i in
      if \<not> active v then g
      else if powerMode g \<and> vulnerable v then
        (let g1 = g\<lparr>viruses := take i (viruses g) @ drop (Suc i) (viruses g)\<rparr>;
             g2 = g1\<lparr>virus_eaten := True\<rparr>
         in g2\<lparr>score := score g2 + virus_score L\<rparr>)
      else if now g - lastHitAt g < HIT_COOLDOWN_MS then g
      else
        (let g1 = g\<lparr>lastHitAt := now g\<rparr>;
             g2 = g1\<lparr>health := health g1 - 10\<rparr>
         in if health g2 < 0 then g2\<lparr>health := 0\<rparr> else g2))"

text \<open>
  The overlaps the physics world can report: the player with an orb, with the power-up,
  or with the virus at an index of the group. An overlap needs its object to exist.
\<close>

datatype overlap = PlayerOrb | PlayerPowerup | PlayerVirus nat

fun on_overlap :: "level \<Rightarrow> overlap \<Rightarrow> game \<Rightarrow> game" where
  "on_overlap L PlayerOrb g = (if orbs g = 0 then g else orb_handler L g)"
| "on_overlap L PlayerPowerup g = (if powerups g = 0 then g else powerup_handler L g)"
| "on_overlap L (PlayerVirus i) g = (if i < length (viruses g) then virus_handler L i g else g)"

text \<open>A paused physics world reports no overlaps.\<close>

definition physics_step :: "level \<Rightarrow> overlap list \<Rightarrow> game \<Rightarrow> game" where
  "physics_step L ovs g = (if physics_paused g then g else fold (on_overlap L) ovs g)"

subsection \<open>Movement and jumping\<close>

record controls =
  onGround :: bool
  left_down :: bool
  right_down :: bool

definition keydown_UP :: "game \<Rightarrow> game" where
  "keydown_UP g = g\<lparr>jumpBufferTime := now g\<rparr>"

definition applyMoveAndJump :: "controls \<Rightarrow> game \<Rightarrow> game" where
  "applyMoveAndJump c g =
     (let g1 = (if onGround c then g\<lparr>coyoteTime := now g\<rparr> else g);
          g2 = g1\<lparr>velocityX := 0\<rparr>;
          g3 = (if left_down c then g2\<lparr>velocityX := - 200\<rparr>
                else if right_down c then g2\<lparr>velocityX := 200\<rparr> else g2);
          canUseBuffer = (now g3 - jumpBufferTime g3 \<le> JUMP_BUFFER_MS);
          hasCoyote = (now g3 - coyoteTime g3 \<le> COYOTE_TIME_MS)
      in if canUseBuffer \<and> hasCoyote
         then g3\<lparr>velocityY := JUMP_VELOCITY, jumpBufferTime := 0, coyoteTime := 0\<rparr>
         else g3)"

subsection \<open>Completion and the per-tick update\<close>

definition complete :: "level \<Rightarrow> game \<Rightarrow> game" where
  "complete L g =
     (if completed g then g
      else
        (let g1 = g\<lparr>completed := True\<rparr>;
             g2 = g1\<lparr>physics_paused := True\<rparr>;
             g3 = addStars 1 g2;
             g4 = addFact (fact1 L) g3;
             g5 = addFact (fact2 L) g4
         in setSystem (system_of L) True g5))"

text \<open>The power-mode countdown at the head of both \<open>update\<close> methods.\<close>

definition power_tick :: "real \<Rightarrow> game \<Rightarrow> game" where
  "power_tick dt g =
     (if powerMode g
      then (let g1 = g\<lparr>powerTimer := powerTimer g - dt\<rparr>
            in if powerTimer g1 \<le> 0 then endPower g1 else g1)
      else g)"

text \<open>
  \<open>update(_, dt)\<close>. The steering of the viruses only writes velocities and is left out.
  \<open>scene.restart()\<close> queues the restart; the scene manager runs it before the next frame.
  The Circulatory level tests completion before the restart, the Lungs level after it.
\<close>

fun update :: "level \<Rightarrow> real \<Rightarrow> controls \<Rightarrow> game \<Rightarrow> game" where
  "update Circulatory dt c g =
     (if completed g then g
      else
        (let g1 = power_tick dt g in
         if \<not> player_body g1 then g1
         else
           (let g2 = applyMoveAndJump c g1;
                g3 = (if energy g2 \<ge> 10 \<and> (brain g2 \<or> virus_eaten g2) then complete Circulatory g2 else g2)
            in if health g3 \<le> 0 then g3\<lparr>restart_pending := True\<rparr> else g3)))"
| "update Lungs dt c g =
     (if completed g then g
      else
        (let g1 = power_tick dt g in
         if \<not> player_body g1 then g1
         else
           (let g2 = applyMoveAndJump c g1;
                g3 = (if health g2 \<le> 0 then g2\<lparr>restart_pending := True\<rparr> else g2)
            in if energy g3 \<ge> 12 \<and> (brain g3 \<or> virus_eaten g3) then complete Lungs g3 else g3)))"

text \<open>
  One frame of a running level: the clock moves to \<open>t\<close>, the physics world reports its
  overlaps, then \<open>update\<close> runs with the elapsed time \<open>dt\<close>.
\<close>

definition frame :: "level \<Rightarrow> real \<Rightarrow> real \<Rightarrow> controls \<Rightarrow> overlap list \<Rightarrow> game \<Rightarrow> game" where
  "frame L t dt c ovs g = update L dt c (physics_step L ovs (g\<lparr>now := t\<rparr>))"

text \<open>A queued restart runs \<open>create\<close> again before the next frame.\<close>

definition process_queue :: "level \<Rightarrow> game \<Rightarrow> game" where
  "process_queue L g = (if restart_pending g then create L g else g)"

definition scene_step :: "level \<Rightarrow> real \<Rightarrow> real \<Rightarrow> controls \<Rightarrow> overlap list \<Rightarrow> game \<Rightarrow> game" where
  "scene_step L t dt c ovs g = process_queue L (frame L t dt c ovs g)"

text \<open>
  The states a level scene is in between frames: it is entered from any session state
  (the star balance of a session is never negative: it starts at 0 and \<open>addStars\<close>
  clamps it), it runs frames whose clock does not go back and whose elapsed time is not
  negative, and the jump key may go down between frames.
\<close>

inductive reachable :: "level \<Rightarrow> game \<Rightarrow> bool" for L :: level where
  enter: "0 \<le> stars g \<Longrightarrow> reachable L (create L g)"
| step: "reachable L g \<Longrightarrow> now g \<le> t \<Longrightarrow> 0 \<le> dt \<Longrightarrow> reachable L (scene_step L t dt c ovs g)"
| key: "reachable L g \<Longrightarrow> reachable L (keydown_UP g)"

text \<open>
  The states \<open>update\<close> is called in: inside a frame, after the clock has moved and the
  overlaps of the frame have been handled.
\<close>

definition before_update :: "level \<Rightarrow> game \<Rightarrow> bool" where
  "before_update L m = (\<exists>g t ovs. reachable L g \<and> now g \<le> t \<and> m = physics_step L ovs (g\<lparr>now := t\<rparr>))"

subsection \<open>The hub scene\<close>

definition toast :: "notice \<Rightarrow> game \<Rightarrow> game" where
  "toast n g = g\<lparr>toasts := toasts g @ [n]\<rparr>"

text \<open>
  \<open>button(..., onClick, enabled)\<close> attaches \<open>onClick\<close> to the pointer only when \<open>enabled\<close>
  holds, and \<open>setEnabled\<close> removes and re-attaches it the same way; \<open>redraw\<close> calls
  \<open>setEnabled\<close> on both buttons.
\<close>

definition redraw :: "game \<Rightarrow> game" where
  "redraw g = g\<lparr>heartBtn_enabled := (\<not> systems_heart g \<and> stars g \<ge> 1),
               lungsBtn_enabled := systems_heart g\<rparr>"

definition BodyMap_create :: "game \<Rightarrow> game" where
  "BodyMap_create g = g\<lparr>heartBtn_enabled := (\<not> systems_heart g \<and> stars g \<ge> 1),
                       lungsBtn_enabled := systems_heart g, toasts := []\<rparr>"

definition heart_onClick :: "game \<Rightarrow> game" where
  "heart_onClick g =
     (if systems_heart g then g
      else if stars g < 1 then toast EarnStarFirst g
      else redraw (toast HeartRepaired (setSystem Heart True (addStars (- 1) g))))"

text \<open>A pointer press on the heart button runs the handler only if it is attached.\<close>

definition press_heartBtn :: "game \<Rightarrow> game" where
  "press_heartBtn g = (if heartBtn_enabled g then heart_onClick g else g)"

text \<open>The lungs button: \<open>G.level = 2; this.scene.start("LungsLevel")\<close> once the heart is repaired.\<close>

definition lungs_onClick :: "game \<Rightarrow> game" where
  "lungs_onClick g =
     (if \<not> systems_heart g then toast RepairHeartFirst g
      else create Lungs (g\<lparr>level := 2\<rparr>))"

definition press_lungsBtn :: "game \<Rightarrow> game" where
  "press_lungsBtn g = (if lungsBtn_enabled g then lungs_onClick g else g)"

subsection \<open>The session at start-up\<close>

text \<open>
  The object literal \<open>G\<close> and the constructor defaults of a level scene, before any scene
  has been created; nothing is in the store.
\<close>

definition initial_G :: game where
  "initial_G =
     \<lparr>score = 0, health = 100, energy = 0, level = 1, powerMode = False, powerTimer = 0,
      stars = 0, systems_heart = False, systems_lungs = False, facts = [], stored = None,
      completed = False, lastHitAt = 0, brain = False, virus_eaten = False,
      jumpBufferTime = 0, coyoteTime = 0,
      orbs = 0, powerups = 0, viruses = [], player_body = False, player_tint = None,
      velocityX = 0, velocityY = 0, now = 0, physics_paused = False, restart_pending = False,
      heartBtn_enabled = False, lungsBtn_enabled = False, toasts = []\<rparr>"

subsection \<open>Events of one level attempt\<close>

text \<open>
  What can happen to a level scene between two runs of \<open>create\<close>, in any order: the clock
  moves, the physics world reports an overlap, \<open>update\<close> runs, the jump key goes down.
\<close>

datatype attempt_event = ClockTo real | Contact overlap | UpdateTick real controls | KeyUp

fun attempt_step :: "level \<Rightarrow> attempt_event \<Rightarrow> game \<Rightarrow> game" where
  "attempt_step L (ClockTo t) g = g\<lparr>now := t\<rparr>"
| "attempt_step L (Contact ov) g = physics_step L [ov] g"
| "attempt_step L (UpdateTick dt c) g = update L dt c g"
| "attempt_step L KeyUp g = keydown_UP g"

definition run_attempt :: "level \<Rightarrow> attempt_event list \<Rightarrow> game \<Rightarrow> game" where
  "run_attempt L evs g = fold (attempt_step L) evs g"

fun clock_of :: "attempt_event \<Rightarrow> real option" where
  "clock_of (ClockTo t) = Some t"
| "clock_of ev = None"

text \<open>Every clock value of the events lies in the window \<open>[t0, t0 + w)\<close>.\<close>

definition within_window :: "real \<Rightarrow> real \<Rightarrow> attempt_event list \<Rightarrow> bool" where
  "within_window t0 w evs = list_all (\<lambda>ev. case clock_of ev of None \<Rightarrow> True | Some t \<Rightarrow> t0 \<le> t \<and> t < t0 + w) evs"

text \<open>
  A contact with the virus at index \<open>i\<close> is hostile when the virus handler takes its
  damage branch: the virus is active, and power mode is off or the virus is not vulnerable.
\<close>

definition hostile :: "nat \<Rightarrow> game \<Rightarrow> bool" where
  "hostile i g = (i < length (viruses g) \<and> active (viruses g ! i) \<and> \<not> (powerMode g \<and> vulnerable (viruses g ! i)))"

section \<open>Invariants of a running level\<close>

text \<open>What holds whenever \<open>update\<close> or an overlap handler of a level scene runs.\<close>

definition level_inv :: "level \<Rightarrow> game \<Rightarrow> bool" where
  "level_inv L g =
     (0 \<le> energy g \<and> energy g \<le> maxE L \<and>
      0 \<le> health g \<and> health g \<le> 100 \<and> 10 dvd health g \<and>
      (if powerMode g then 0 < powerTimer g \<and> powerTimer g \<le> POWER_MS else powerTimer g = 0) \<and>
      (completed g \<longrightarrow> energy g = maxE L \<and> (brain g \<or> virus_eaten g)) \<and>
      completed g = physics_paused g \<and>
      player_body g \<and> 0 \<le> stars g \<and>
      (health g \<le> 0 \<and> \<not> restart_pending g \<longrightarrow> \<not> completed g \<and> lastHitAt g = now g))"

text \<open>Between frames no restart is queued and the player is alive.\<close>

definition between_frames :: "level \<Rightarrow> game \<Rightarrow> bool" where
  "between_frames L g = (level_inv L g \<and> \<not> restart_pending g \<and> 0 < health g)"

section \<open>Runs of frames\<close>

text \<open>
  A run of frames, each given by its clock value, its elapsed time, the controls read by
  \<open>update\<close> and the overlaps reported in it; a queued restart is run after each frame.
\<close>

fun run_frames :: "level \<Rightarrow> (real \<times> real \<times> controls \<times> overlap list) list \<Rightarrow> game \<Rightarrow> game" where
  "run_frames L [] g = g"
| "run_frames L ((t, dt, c, ovs) # fs) g = run_frames L fs (scene_step L t dt c ovs g)"

text \<open>The clock of the frames does not go back and no elapsed time is negative.\<close>

fun frames_ok :: "real \<Rightarrow> (real \<times> real \<times> controls \<times> overlap list) list \<Rightarrow> bool" where
  "frames_ok t0 [] = True"
| "frames_ok t0 ((t, dt, c, ovs) # fs) = (t0 \<le> t \<and> 0 \<le> dt \<and> frames_ok t fs)"

definition standing :: controls where
  "standing = \<lparr>onGround = True, left_down = False, right_down = False\<rparr>"

definition airborne :: controls where
  "airborne = \<lparr>onGround = False, left_down = False, right_down = False\<rparr>"

text \<open>Nine frames one second apart, each with a contact with the first virus.\<close>

definition nine_hits :: "(real \<times> real \<times> controls \<times> overlap list) list" where
  "nine_hits = [(1000, 16, standing, [PlayerVirus 0]), (2000, 16, standing, [PlayerVirus 0]),
     (3000, 16, standing, [PlayerVirus 0]), (4000, 16, standing, [PlayerVirus 0]),
     (5000, 16, standing, [PlayerVirus 0]), (6000, 16, standing, [PlayerVirus 0]),
     (7000, 16, standing, [PlayerVirus 0]), (8000, 16, standing, [PlayerVirus 0]),
     (9000, 16, standing, [PlayerVirus 0])]"

text \<open>The flag \<open>G.systems[k]\<close>.\<close>

fun system_flag :: "system_id \<Rightarrow> game \<Rightarrow> bool" where
  "system_flag Heart g = systems_heart g"
| "system_flag LungsSys g = systems_lungs g"

text \<open>Ten orb pickups.\<close>

definition ten_orbs :: "overlap list" where
  "ten_orbs = [PlayerOrb, PlayerOrb, PlayerOrb, PlayerOrb, PlayerOrb,
               PlayerOrb, PlayerOrb, PlayerOrb, PlayerOrb, PlayerOrb]"

text \<open>
  A Circulatory run whose first frame collects ten orbs and the power-up: its \<open>update\<close>
  completes the level while power mode is active.
\<close>

definition completed_in_power :: game where
  "completed_in_power =
     run_frames Circulatory [(2000, 16, standing, ten_orbs @ [PlayerPowerup])] (create Circulatory initial_G)"

text \<open>A Circulatory run whose first frame, at 2000 ms, has one hostile contact.\<close>

definition hit_once :: game where
  "hit_once = run_frames Circulatory [(2000, 16, standing, [PlayerVirus 0])] (create Circulatory initial_G)"

text \<open>
  The states of the hub scene. The scene is started in one place only, by the button that
  \<open>LungsLevel.complete\<close> shows. The Lungs level itself is started after
  \<open>CirculatoryLevel.complete\<close> (through the travel scene) or by the lungs button of the hub,
  so by then \<open>setSystem("heart", true)\<close> has run, and nothing ever clears the flag. In the hub
  the heart button may be pressed any number of times.
\<close>

inductive hub_state :: "game \<Rightarrow> bool" where
  hub_enter: "reachable Lungs g \<Longrightarrow> completed g \<Longrightarrow> systems_heart g \<Longrightarrow> hub_state (BodyMap_create g)"
| hub_press: "hub_state s \<Longrightarrow> hub_state (press_heartBtn s)"


text \<open>
  The hub as a session reaches it: after the completed Circulatory run above, a Lungs
  level whose first frame collects twelve orbs and the power-up, then the hub.
\<close>

definition hub_after_both_levels :: game where
  "hub_after_both_levels =
     BodyMap_create
       (run_frames Lungs [(4000, 16, standing, ten_orbs @ [PlayerOrb, PlayerOrb, PlayerPowerup])]
          (create Lungs completed_in_power))"

section \<open>What the page renders\<close>

text \<open>
  After \<open>load\<close> the star balance and the facts go to React (\<open>setStars\<close>, \<open>setFacts\<close>), which
  places the balance as the child of a badge and each of the last five facts
  (\<open>facts.slice(-5)\<close>) as the child of a list item. A string or a number is rendered, a
  boolean, \<open>null\<close> or \<open>undefined\<close> renders nothing, an array is rendered element by element,
  and a plain object makes React throw; with no error boundary in the component the page
  goes blank.
\<close>

fun valid_child :: "jsval \<Rightarrow> bool" where
  "valid_child (JObj kvs) = False"
| "valid_child (JArr xs) = list_all valid_child xs"
| "valid_child v = True"

definition last_five :: "'a list \<Rightarrow> 'a list" where
  "last_five xs = drop (length xs - 5) xs"

definition page_renders :: "jsprogress \<Rightarrow> bool" where
  "page_renders G = (valid_child (js_stars G) \<and> list_all valid_child (last_five (js_facts G)))"

section \<open>Snapshots and a sample store\<close>

text \<open>
  The snapshot of the three progress fields of a session, as JavaScript values: what
  \<open>load\<close> has to give back.
\<close>

definition snapshot :: "game \<Rightarrow> jsprogress" where
  "snapshot g =
     \<lparr>js_stars = JNum (of_int (stars g)), js_heart = systems_heart g, js_lungs = systems_lungs g,
      js_facts = map JStr (facts g)\<rparr>"

text \<open>A session with three stars, the heart repaired and one fact, and its JSON text.\<close>

definition sample_session :: game where
  "sample_session = initial_G\<lparr>stars := 3, systems_heart := True, facts := [fact1 Circulatory]\<rparr>"

definition quoted :: "string \<Rightarrow> string" where
  "quoted s = CHR 0x22 # s @ [CHR 0x22]"

definition sample_text :: string where
  "sample_text =
     ''{'' @ quoted ''stars'' @ '':3,'' @ quoted ''systems'' @ '':{'' @ quoted ''heart'' @ '':true,''
       @ quoted ''lungs'' @ '':false},'' @ quoted ''facts'' @ '':['' @ quoted (fact1 Circulatory) @ '']}''"

text \<open>
  \<open>JSON.stringify\<close> and \<open>JSON.parse\<close> on the two texts the sample needs: the text of the
  sample session and \<open>null\<close>; every other text is taken as unparsable.
\<close>

definition sample_stringify :: "jsval \<Rightarrow> string" where
  "sample_stringify v = (if v = progress_json sample_session then sample_text else ''null'')"

definition sample_parse :: "string \<Rightarrow> jsval option" where
  "sample_parse t =
     (if t = sample_text then Some (progress_json sample_session)
      else if t = ''null'' then Some JNull else None)"

text \<open>
  A stored record whose facts hold an object, \<open>{"facts":[{"a":1}]}\<close>, and \<open>JSON.parse\<close>
  extended to that text.
\<close>

definition object_facts_text :: string where
  "object_facts_text = ''{'' @ quoted ''facts'' @ '':[{'' @ quoted ''a'' @ '':1}]}''"

definition object_facts_parse :: "string \<Rightarrow> jsval option" where
  "object_facts_parse t =
     (if t = object_facts_text then Some (JObj [(''facts'', JArr [JObj [(''a'', JNum 1)]])])
      else sample_parse t)"

text \<open>Events among which the jump key never goes down, and whose clock values all exceed \<open>w\<close>.\<close>

definition no_key_press :: "attempt_event list \<Rightarrow> bool" where
  "no_key_press evs = list_all (\<lambda>ev. ev \<noteq> KeyUp) evs"

definition clock_beyond :: "real \<Rightarrow> attempt_event list \<Rightarrow> bool" where
  "clock_beyond w evs = list_all (\<lambda>ev. case clock_of ev of None \<Rightarrow> True | Some t \<Rightarrow> w < t) evs"

lemma create_between: "0 \<le> stars g \<Longrightarrow> between_frames L (create L g)"
  by (cases L) (simp_all add: between_frames_def level_inv_def create_def resetStatsForLevel_def
      enablePlayer_def enableCursors_def Let_def)

lemma persist_fields [simp]:
  "energy (persist g) = energy g" "health (persist g) = health g" "powerMode (persist g) = powerMode g"
  "powerTimer (persist g) = powerTimer g" "completed (persist g) = completed g"
  "brain (persist g) = brain g" "virus_eaten (persist g) = virus_eaten g"
  "physics_paused (persist g) = physics_paused g" "player_body (persist g) = player_body g"
  "restart_pending (persist g) = restart_pending g" "lastHitAt (persist g) = lastHitAt g"
  "now (persist g) = now g" "score (persist g) = score g"
  "stars (persist g) = stars g" "facts (persist g) = facts g"
  "systems_heart (persist g) = systems_heart g" "systems_lungs (persist g) = systems_lungs g"
  "viruses (persist g) = viruses g"
  by (simp_all add: persist_def)

lemma on_overlap_inv:
  assumes "level_inv L g" "\<not> physics_paused g" "\<not> restart_pending g"
  shows "level_inv L (on_overlap L ev g) \<and> \<not> physics_paused (on_overlap L ev g) \<and> \<not> restart_pending (on_overlap L ev g)"
proof (cases ev)
  case PlayerOrb
  then show ?thesis using assms
    by (auto simp: level_inv_def orb_handler_def Let_def)
next
  case PlayerPowerup
  then show ?thesis using assms
    by (auto simp: level_inv_def powerup_handler_def activatePower_def POWER_MS_def Let_def)
next
  case (PlayerVirus i)
  then show ?thesis using assms
    by (auto simp: level_inv_def virus_handler_def HIT_COOLDOWN_MS_def Let_def)
qed


lemma physics_step_inv:
  assumes "level_inv L g" "\<not> restart_pending g"
  shows "level_inv L (physics_step L ovs g) \<and> \<not> restart_pending (physics_step L ovs g)"
proof (cases "physics_paused g")
  case True
  then show ?thesis using assms by (simp add: physics_step_def)
next
  case False
  have "level_inv L g \<and> \<not> physics_paused g \<and> \<not> restart_pending g \<Longrightarrow>
        level_inv L (fold (on_overlap L) ovs g) \<and> \<not> restart_pending (fold (on_overlap L) ovs g)" for g
  proof (induction ovs arbitrary: g)
    case Nil
    then show ?case by simp
  next
    case (Cons ev ovs)
    then show ?case using on_overlap_inv [of L g ev] by simp
  qed
  then show ?thesis using assms False by (simp add: physics_step_def)
qed

lemma set_now_inv: "between_frames L g \<Longrightarrow> level_inv L (g\<lparr>now := t\<rparr>) \<and> \<not> restart_pending (g\<lparr>now := t\<rparr>)"
  by (simp add: between_frames_def level_inv_def)

lemma power_tick_fields [simp]:
  "energy (power_tick dt g) = energy g" "health (power_tick dt g) = health g"
  "completed (power_tick dt g) = completed g"
  "brain (power_tick dt g) = brain g" "virus_eaten (power_tick dt g) = virus_eaten g"
  "physics_paused (power_tick dt g) = physics_paused g" "player_body (power_tick dt g) = player_body g"
  "restart_pending (power_tick dt g) = restart_pending g" "lastHitAt (power_tick dt g) = lastHitAt g"
  "now (power_tick dt g) = now g" "score (power_tick dt g) = score g"
  "stars (power_tick dt g) = stars g" "facts (power_tick dt g) = facts g"
  "systems_heart (power_tick dt g) = systems_heart g" "systems_lungs (power_tick dt g) = systems_lungs g"
  "stored (power_tick dt g) = stored g"
  by (simp_all add: power_tick_def endPower_def Let_def)

lemma power_tick_timer:
  assumes "if powerMode g then 0 < powerTimer g \<and> powerTimer g \<le> POWER_MS else powerTimer g = 0" "0 \<le> dt"
  shows "if powerMode (power_tick dt g) then 0 < powerTimer (power_tick dt g) \<and> powerTimer (power_tick dt g) \<le> POWER_MS
         else powerTimer (power_tick dt g) = 0"
  using assms by (auto simp: power_tick_def endPower_def Let_def split: if_splits)

lemma applyMoveAndJump_fields [simp]:
  "energy (applyMoveAndJump c g) = energy g" "health (applyMoveAndJump c g) = health g"
  "completed (applyMoveAndJump c g) = completed g"
  "brain (applyMoveAndJump c g) = brain g" "virus_eaten (applyMoveAndJump c g) = virus_eaten g"
  "physics_paused (applyMoveAndJump c g) = physics_paused g" "player_body (applyMoveAndJump c g) = player_body g"
  "restart_pending (applyMoveAndJump c g) = restart_pending g" "lastHitAt (applyMoveAndJump c g) = lastHitAt g"
  "now (applyMoveAndJump c g) = now g" "score (applyMoveAndJump c g) = score g"
  "powerMode (applyMoveAndJump c g) = powerMode g" "powerTimer (applyMoveAndJump c g) = powerTimer g"
  "stars (applyMoveAndJump c g) = stars g" "facts (applyMoveAndJump c g) = facts g"
  "systems_heart (applyMoveAndJump c g) = systems_heart g" "systems_lungs (applyMoveAndJump c g) = systems_lungs g"
  "stored (applyMoveAndJump c g) = stored g"
  by (simp_all add: applyMoveAndJump_def Let_def)

lemma complete_fields [simp]:
  "energy (complete L g) = energy g" "health (complete L g) = health g"
  "brain (complete L g) = brain g" "virus_eaten (complete L g) = virus_eaten g"
  "player_body (complete L g) = player_body g"
  "restart_pending (complete L g) = restart_pending g" "lastHitAt (complete L g) = lastHitAt g"
  "now (complete L g) = now g" "score (complete L g) = score g"
  "powerMode (complete L g) = powerMode g" "powerTimer (complete L g) = powerTimer g"
  by (cases L; simp add: complete_def addStars_def addFact_def Let_def)+

lemma complete_flags:
  "completed (complete L g)" "\<not> completed g \<Longrightarrow> physics_paused (complete L g)"
  "0 \<le> stars g \<Longrightarrow> 0 \<le> stars (complete L g)"
  by (cases L; simp add: complete_def addStars_def addFact_def Let_def)+

lemma update_inv:
  assumes "level_inv L m" "\<not> restart_pending m" "0 \<le> dt"
  shows "level_inv L (update L dt c m) \<and> (health (update L dt c m) \<le> 0 \<longrightarrow> restart_pending (update L dt c m))"
proof (cases "completed m")
  case True
  then show ?thesis using assms by (cases L) (auto simp: level_inv_def)
next
  case False
  note pt = power_tick_timer [of m dt]
  show ?thesis using assms False pt
    by (cases L) (auto simp: level_inv_def Let_def complete_flags)
qed

lemma process_queue_between:
  assumes "level_inv L g" "health g \<le> 0 \<longrightarrow> restart_pending g"
  shows "between_frames L (process_queue L g)"
  using assms create_between [of g L] by (auto simp: process_queue_def between_frames_def level_inv_def)

lemma scene_step_between:
  assumes "between_frames L g" "0 \<le> dt"
  shows "between_frames L (scene_step L t dt c ovs g)"
proof -
  from set_now_inv [OF assms(1), of t]
  have a: "level_inv L (g\<lparr>now := t\<rparr>)" "\<not> restart_pending (g\<lparr>now := t\<rparr>)" by simp_all
  from physics_step_inv [OF a, of ovs]
  have b: "level_inv L (physics_step L ovs (g\<lparr>now := t\<rparr>))" "\<not> restart_pending (physics_step L ovs (g\<lparr>now := t\<rparr>))"
    by simp_all
  from update_inv [OF b assms(2), of c] show ?thesis
    by (simp add: scene_step_def frame_def process_queue_between)
qed

lemma keydown_between: "between_frames L g \<Longrightarrow> between_frames L (keydown_UP g)"
  by (simp add: between_frames_def level_inv_def keydown_UP_def)

lemma reachable_between: "reachable L g \<Longrightarrow> between_frames L g"
  by (induction rule: reachable.induct) (simp_all add: create_between scene_step_between keydown_between)

lemma before_update_inv: "before_update L m \<Longrightarrow> level_inv L m \<and> \<not> restart_pending m"
  unfolding before_update_def
  using reachable_between set_now_inv physics_step_inv by blast



lemma before_updateI:
  "reachable L g \<Longrightarrow> now g \<le> t \<Longrightarrow> before_update L (physics_step L ovs (g\<lparr>now := t\<rparr>))"
  unfolding before_update_def by blast

lemmas eval_defs = create_def resetStatsForLevel_def enablePlayer_def enableCursors_def initial_G_def
  physics_step_def orb_handler_def powerup_handler_def virus_handler_def activatePower_def endPower_def
  new_virus_def Let_def scene_step_def frame_def process_queue_def power_tick_def applyMoveAndJump_def
  complete_def addStars_def addFact_def persist_def progress_json_def standing_def airborne_def
  HIT_COOLDOWN_MS_def JUMP_BUFFER_MS_def COYOTE_TIME_MS_def JUMP_VELOCITY_def POWER_MS_def

lemma now_on_overlap [simp]: "now (on_overlap L ev g) = now g"
  by (cases ev) (simp_all add: orb_handler_def powerup_handler_def activatePower_def virus_handler_def Let_def)

lemma now_fold_overlap [simp]: "now (fold (on_overlap L) ovs g) = now g"
  by (induction ovs arbitrary: g) simp_all

lemma now_physics_step [simp]: "now (physics_step L ovs g) = now g"
  by (simp add: physics_step_def)

lemma now_update [simp]: "now (update L dt c g) = now g"
  by (cases L) (simp_all add: Let_def)

lemma create_fields:
  "health (create L g) = 100" "energy (create L g) = 0" "\<not> powerMode (create L g)"
  "powerTimer (create L g) = 0" "\<not> brain (create L g)" "\<not> virus_eaten (create L g)"
  "\<not> completed (create L g)" "lastHitAt (create L g) = 0" "score (create L g) = score g"
  "\<not> restart_pending (create L g)" "\<not> physics_paused (create L g)" "now (create L g) = now g"
  "jumpBufferTime (create L g) = 0" "coyoteTime (create L g) = 0"
  by (simp_all add: create_def resetStatsForLevel_def enablePlayer_def enableCursors_def Let_def)

lemma now_scene_step [simp]: "now (scene_step L t dt c ovs g) = t"
  by (simp add: scene_step_def process_queue_def frame_def create_fields)

lemma reachable_run_frames:
  "reachable L g \<Longrightarrow> frames_ok (now g) fs \<Longrightarrow> reachable L (run_frames L fs g)"
proof (induction fs arbitrary: g)
  case Nil
  then show ?case by simp
next
  case (Cons f fs)
  obtain t dt c ovs where f: "f = (t, dt, c, ovs)" by (cases f)
  with Cons.prems have "reachable L (scene_step L t dt c ovs g)" "frames_ok (now (scene_step L t dt c ovs g)) fs"
    by (simp_all add: reachable.step)
  then show ?case using Cons.IH f by simp
qed

lemma reachable_initial: "reachable L (create L initial_G)"
  by (rule reachable.enter) (simp add: initial_G_def)

lemma now_initial: "now (create L initial_G) = 0"
  by (simp add: eval_defs)

section \<open>The objective tracker\<close>

lemma orb_handler_energy:
  "energy (orb_handler L g) = (if energy g < maxE L then energy g + 1 else energy g)"
  by (simp add: orb_handler_def Let_def)

text \<open>
  C2. In every state of a level run in which an overlap handler or \<open>update\<close> can run, that is
  after any frames and any sequence of overlaps (orb pickups among them), \<open>energy\<close> lies
  between 0 and the threshold of the level (10 for Circulatory, 12 for Lungs). An orb
  pickup adds exactly 1 while \<open>energy\<close> is strictly below the threshold and leaves it
  unchanged otherwise, so it never goes past the threshold.
\<close>

theorem energy_never_exceeds_threshold:
  assumes "before_update L m"
  shows "0 \<le> energy m \<and> energy m \<le> maxE L \<and>
         energy (orb_handler L m) = (if energy m < maxE L then energy m + 1 else energy m) \<and>
         energy (orb_handler L m) \<le> maxE L"
proof -
  from before_update_inv [OF assms] have "0 \<le> energy m" "energy m \<le> maxE L"
    by (simp_all add: level_inv_def)
  then show ?thesis by (simp add: orb_handler_energy)
qed

text \<open>
  The Lungs level has 14 orbs and a threshold of 12: after all 14 pickups in one frame the
  energy is 12, and one more run of the handler leaves it at 12.
\<close>

theorem energy_never_exceeds_threshold_witness:
  "before_update Lungs (physics_step Lungs (replicate 14 PlayerOrb) ((create Lungs initial_G)\<lparr>now := 2000\<rparr>)) \<and>
   energy (physics_step Lungs (replicate 14 PlayerOrb) ((create Lungs initial_G)\<lparr>now := 2000\<rparr>)) = 12 \<and>
   energy (orb_handler Lungs (physics_step Lungs (replicate 14 PlayerOrb) ((create Lungs initial_G)\<lparr>now := 2000\<rparr>))) = 12"
proof -
  have n: "now (create Lungs initial_G) \<le> 2000"
    by (simp add: now_initial)
  have h: "before_update Lungs (physics_step Lungs (replicate 14 PlayerOrb) ((create Lungs initial_G)\<lparr>now := 2000\<rparr>))"
    by (rule before_updateI [OF reachable_initial n])
  have e: "energy (physics_step Lungs (replicate 14 PlayerOrb) ((create Lungs initial_G)\<lparr>now := 2000\<rparr>)) = 12"
    by (simp add: create_def resetStatsForLevel_def enablePlayer_def enableCursors_def initial_G_def
        physics_step_def orb_handler_def Let_def numeral_eq_Suc)
  show ?thesis using h e energy_never_exceeds_threshold [OF h] by simp
qed

section \<open>Health and the restart on death\<close>

lemma virus_handler_hit:
  assumes "hostile i g" "\<not> now g - lastHitAt g < HIT_COOLDOWN_MS"
  shows "health (virus_handler L i g) = max 0 (health g - 10)" "lastHitAt (virus_handler L i g) = now g"
  using assms by (auto simp: hostile_def virus_handler_def Let_def)

lemma update_restart:
  assumes "level_inv L m" "\<not> restart_pending m" "health m \<le> 0"
  shows "restart_pending (update L dt c m)"
proof -
  from assms have "\<not> completed m" "player_body m" by (auto simp: level_inv_def)
  then show ?thesis using assms(3)
    by (cases L) (simp_all add: Let_def)
qed

text \<open>
  C3. A level starts with \<open>health\<close> at 100, and in every state of a level run in which a
  handler or \<open>update\<close> can run \<open>health\<close> lies in the closed interval from 0 to 100. A hostile
  contact outside the cooldown leaves \<open>max 0 (health - 10)\<close>, never a negative value. An \<open>update\<close> that finds \<open>health\<close> at 0 queues
  the restart of the scene, and running the queue creates the level again: health 100,
  energy 0, power mode off with timer 0, both sub-goals false.
\<close>

theorem health_in_range_and_restart:
  assumes "before_update L m" "0 \<le> dt"
  shows "health (create L g0) = 100 \<and>
         0 \<le> health m \<and> health m \<le> 100 \<and>
         (\<forall>i. hostile i m \<and> \<not> now m - lastHitAt m < HIT_COOLDOWN_MS \<longrightarrow>
              health (virus_handler L i m) = max 0 (health m - 10)) \<and>
         (health m = 0 \<longrightarrow>
            restart_pending (update L dt c m) \<and>
            process_queue L (update L dt c m) = create L (update L dt c m) \<and>
            health (process_queue L (update L dt c m)) = 100 \<and>
            energy (process_queue L (update L dt c m)) = 0 \<and>
            \<not> powerMode (process_queue L (update L dt c m)) \<and>
            powerTimer (process_queue L (update L dt c m)) = 0 \<and>
            \<not> brain (process_queue L (update L dt c m)) \<and>
            \<not> virus_eaten (process_queue L (update L dt c m)))"
proof -
  from before_update_inv [OF assms(1)] have inv: "level_inv L m" "\<not> restart_pending m" by simp_all
  then have range: "0 \<le> health m" "health m \<le> 100" by (simp_all add: level_inv_def)
  have hit: "\<forall>i. hostile i m \<and> \<not> now m - lastHitAt m < HIT_COOLDOWN_MS \<longrightarrow>
              health (virus_handler L i m) = max 0 (health m - 10)"
    using virus_handler_hit(1) by blast
  have restart: "restart_pending (update L dt c m)" if "health m = 0"
    using update_restart [OF inv] that by simp
  show ?thesis using range hit restart
    by (simp add: process_queue_def create_fields)
qed

text \<open>
  Ten hostile contacts one second apart, the first nine in frames of their own: the tenth
  brings health from 10 to 0, the \<open>update\<close> of that frame queues the restart, and the
  restarted level has health 100.
\<close>

theorem health_in_range_and_restart_witness:
  "before_update Circulatory
     (physics_step Circulatory [PlayerVirus 0]
        ((run_frames Circulatory nine_hits (create Circulatory initial_G))\<lparr>now := 10000\<rparr>)) \<and>
   (0::real) \<le> 16 \<and>
   health (physics_step Circulatory [PlayerVirus 0]
        ((run_frames Circulatory nine_hits (create Circulatory initial_G))\<lparr>now := 10000\<rparr>)) = 0 \<and>
   restart_pending (update Circulatory 16 standing (physics_step Circulatory [PlayerVirus 0]
        ((run_frames Circulatory nine_hits (create Circulatory initial_G))\<lparr>now := 10000\<rparr>))) \<and>
   health (process_queue Circulatory (update Circulatory 16 standing (physics_step Circulatory [PlayerVirus 0]
        ((run_frames Circulatory nine_hits (create Circulatory initial_G))\<lparr>now := 10000\<rparr>)))) = 100"
proof -
  let ?g = "run_frames Circulatory nine_hits (create Circulatory initial_G)"
  let ?m = "physics_step Circulatory [PlayerVirus 0] (?g\<lparr>now := 10000\<rparr>)"
  have r: "reachable Circulatory ?g"
    by (rule reachable_run_frames [OF reachable_initial]) (simp add: now_initial nine_hits_def)
  have n: "now ?g \<le> 10000"
    by (simp add: nine_hits_def)
  have h: "before_update Circulatory ?m"
    by (rule before_updateI [OF r n])
  have d: "(0::real) \<le> 16" by simp
  have z: "health ?m = 0"
    by (simp add: eval_defs nine_hits_def)
  show ?thesis using h d z health_in_range_and_restart [OF h d, where c = standing]
    by blast
qed

section \<open>Level completion\<close>

lemma progress_json_persist [simp]: "progress_json (persist g) = progress_json g"
  by (simp add: progress_json_def persist_def)

lemma stored_persist [simp]: "stored (persist g) = Some (progress_json g)"
  by (simp add: persist_def)

lemma addFact_fields [simp]:
  "completed (addFact t g) = completed g" "physics_paused (addFact t g) = physics_paused g"
  "stars (addFact t g) = stars g" "systems_heart (addFact t g) = systems_heart g"
  "systems_lungs (addFact t g) = systems_lungs g"
  "set (facts (addFact t g)) = insert t (set (facts g))"
  by (auto simp: addFact_def)

lemma addStars_fields [simp]:
  "completed (addStars n g) = completed g" "physics_paused (addStars n g) = physics_paused g"
  "stars (addStars n g) = max 0 (stars g + n)" "systems_heart (addStars n g) = systems_heart g"
  "systems_lungs (addStars n g) = systems_lungs g"
  "facts (addStars n g) = facts g"
  by (simp_all add: addStars_def)

lemma setSystem_fields [simp]:
  "completed (setSystem k v g) = completed g" "physics_paused (setSystem k v g) = physics_paused g"
  "stars (setSystem k v g) = stars g" "facts (setSystem k v g) = facts g"
  "system_flag k (setSystem k v g) = v"
  "stored (setSystem k v g) = Some (progress_json (setSystem k v g))"
  by (cases k; simp add: progress_json_def)+


lemma restart_flag_progress [simp]:
  "progress_json (g\<lparr>restart_pending := b\<rparr>) = progress_json g"
  by (simp add: progress_json_def)

lemma complete_fresh:
  assumes "\<not> completed g"
  shows "complete L g = setSystem (system_of L) True (addFact (fact2 L) (addFact (fact1 L)
           (addStars 1 (g\<lparr>completed := True, physics_paused := True\<rparr>))))"
  using assms by (simp add: complete_def Let_def)

lemma complete_reward:
  assumes "\<not> completed g" "0 \<le> stars g"
  shows "completed (complete L g)" "physics_paused (complete L g)"
        "stars (complete L g) = stars g + 1"
        "set (facts (complete L g)) = set (facts g) \<union> {fact1 L, fact2 L}"
        "system_flag (system_of L) (complete L g)"
        "stored (complete L g) = Some (progress_json (complete L g))"
  using assms
  by (auto simp: complete_fresh simp del: setSystem.simps fact1.simps fact2.simps system_of.simps)

lemma update_circulatory:
  assumes "\<not> completed m" "player_body m"
  shows "completed (update Circulatory dt c m) \<longleftrightarrow> 10 \<le> energy m \<and> (brain m \<or> virus_eaten m)"
  using assms by (simp add: Let_def complete_flags)

lemma update_lungs:
  assumes "\<not> completed m" "player_body m"
  shows "completed (update Lungs dt c m) \<longleftrightarrow> 12 \<le> energy m \<and> (brain m \<or> virus_eaten m)"
  using assms by (simp add: Let_def complete_flags)


lemma update_completes:
  assumes "level_inv L m" "\<not> restart_pending m"
  shows "completed (update L dt c m) \<longleftrightarrow> energy m = maxE L \<and> (brain m \<or> virus_eaten m)"
proof (cases "completed m")
  case True
  then show ?thesis using assms by (cases L) (auto simp: level_inv_def)
next
  case False
  moreover from assms have "player_body m" "energy m \<le> maxE L" by (simp_all add: level_inv_def)
  ultimately show ?thesis
    using update_circulatory [of m dt c] update_lungs [of m dt c]
    by (cases L) (auto simp del: update.simps)
qed

lemma update_rewards:
  assumes "level_inv L m" "\<not> completed m" "energy m = maxE L" "brain m \<or> virus_eaten m"
  shows "physics_paused (update L dt c m) \<and> stars (update L dt c m) = stars m + 1 \<and>
         set (facts (update L dt c m)) = set (facts m) \<union> {fact1 L, fact2 L} \<and>
         system_flag (system_of L) (update L dt c m) \<and>
         stored (update L dt c m) = Some (progress_json (update L dt c m))"
proof -
  from assms have pb: "player_body m" and st: "0 \<le> stars m" by (simp_all add: level_inv_def)
  define a where "a = applyMoveAndJump c (power_tick dt m)"
  have a: "\<not> completed a" "0 \<le> stars a" "stars a = stars m" "facts a = facts m"
          "energy a = energy m" "brain a = brain m" "virus_eaten a = virus_eaten m" "health a = health m"
    using assms(2) st by (simp_all add: a_def)
  show ?thesis
  proof (cases L)
    case Circulatory
    have u: "update Circulatory dt c m =
               (if health a \<le> 0 then (complete Circulatory a)\<lparr>restart_pending := True\<rparr> else complete Circulatory a)"
      using assms(2-4) pb Circulatory by (auto simp: Let_def a_def)
    show ?thesis using complete_reward [OF a(1,2), of Circulatory] a(3,4) Circulatory
      by (simp add: u progress_json_def del: update.simps fact1.simps fact2.simps)
  next
    case Lungs
    define b where "b = (if health a \<le> 0 then a\<lparr>restart_pending := True\<rparr> else a)"
    have b: "\<not> completed b" "0 \<le> stars b" "stars b = stars m" "facts b = facts m"
      using a by (simp_all add: b_def)
    have u: "update Lungs dt c m = complete Lungs b"
      using assms(2-4) pb Lungs by (auto simp: Let_def a_def b_def)
    show ?thesis using complete_reward [OF b(1,2), of Lungs] b(3,4) Lungs
      by (simp add: u del: update.simps fact1.simps fact2.simps)
  qed
qed

lemma update_no_reward:
  assumes "level_inv L m" "\<not> completed m" "\<not> (energy m = maxE L \<and> (brain m \<or> virus_eaten m))"
  shows "\<not> physics_paused (update L dt c m) \<and> stars (update L dt c m) = stars m \<and>
         facts (update L dt c m) = facts m \<and>
         systems_heart (update L dt c m) = systems_heart m \<and>
         systems_lungs (update L dt c m) = systems_lungs m \<and>
         stored (update L dt c m) = stored m"
proof -
  from assms have "player_body m" "energy m \<le> maxE L" "\<not> physics_paused m" by (auto simp: level_inv_def)
  then show ?thesis
    using assms(2,3) by (cases L) (auto simp: Let_def)
qed


text \<open>
  C1. In every state in which \<open>update\<close> of a level runs, the level is completed after the
  tick if and only if \<open>energy\<close> equals the threshold of the level (10 for Circulatory, 12 for
  Lungs) and at least one of the two sub-goals (power-up collected, virus eaten) holds. On
  the tick of a level not yet completed the reward is granted exactly in that case:
  physics is paused, one star is added, both facts of the level are among the learned
  facts, the system of the level is flagged and the progress is persisted; otherwise stars,
  facts, system flags and the store are unchanged and physics keeps running.
\<close>

theorem completion_iff_threshold_and_subgoal:
  assumes "before_update L m"
  shows "(completed (update L dt c m) \<longleftrightarrow> energy m = maxE L \<and> (brain m \<or> virus_eaten m)) \<and>
         (\<not> completed m \<longrightarrow>
            (if energy m = maxE L \<and> (brain m \<or> virus_eaten m)
             then physics_paused (update L dt c m) \<and>
                  stars (update L dt c m) = stars m + 1 \<and>
                  set (facts (update L dt c m)) = set (facts m) \<union> {fact1 L, fact2 L} \<and>
                  system_flag (system_of L) (update L dt c m) \<and>
                  stored (update L dt c m) = Some (progress_json (update L dt c m))
             else \<not> physics_paused (update L dt c m) \<and>
                  stars (update L dt c m) = stars m \<and>
                  facts (update L dt c m) = facts m \<and>
                  systems_heart (update L dt c m) = systems_heart m \<and>
                  systems_lungs (update L dt c m) = systems_lungs m \<and>
                  stored (update L dt c m) = stored m))"
proof -
  from before_update_inv [OF assms] have inv: "level_inv L m" "\<not> restart_pending m" by simp_all
  show ?thesis
    using update_completes [OF inv, of dt c] update_rewards [OF inv(1), of dt c] update_no_reward [OF inv(1), of dt c]
    by (simp del: update.simps fact1.simps fact2.simps)
qed



text \<open>
  The three cases of the specification in the Circulatory level: energy 10 with the
  power-up only completes the level and gives the first star; energy 10 with neither
  sub-goal does not; energy 9 with both sub-goals does not.
\<close>

theorem completion_iff_threshold_and_subgoal_witness:
  "before_update Circulatory
     (physics_step Circulatory (ten_orbs @ [PlayerPowerup]) ((create Circulatory initial_G)\<lparr>now := 2000\<rparr>)) \<and>
   completed (update Circulatory 16 standing
     (physics_step Circulatory (ten_orbs @ [PlayerPowerup]) ((create Circulatory initial_G)\<lparr>now := 2000\<rparr>))) \<and>
   stars (update Circulatory 16 standing
     (physics_step Circulatory (ten_orbs @ [PlayerPowerup]) ((create Circulatory initial_G)\<lparr>now := 2000\<rparr>))) = 1 \<and>
   before_update Circulatory
     (physics_step Circulatory ten_orbs ((create Circulatory initial_G)\<lparr>now := 2000\<rparr>)) \<and>
   \<not> completed (update Circulatory 16 standing
     (physics_step Circulatory ten_orbs ((create Circulatory initial_G)\<lparr>now := 2000\<rparr>))) \<and>
   before_update Circulatory
     (physics_step Circulatory (butlast ten_orbs @ [PlayerPowerup, PlayerVirus 0])
        ((create Circulatory initial_G)\<lparr>now := 2000\<rparr>)) \<and>
   \<not> completed (update Circulatory 16 standing
     (physics_step Circulatory (butlast ten_orbs @ [PlayerPowerup, PlayerVirus 0])
        ((create Circulatory initial_G)\<lparr>now := 2000\<rparr>)))"
proof -
  let ?a = "physics_step Circulatory (ten_orbs @ [PlayerPowerup]) ((create Circulatory initial_G)\<lparr>now := 2000\<rparr>)"
  let ?b = "physics_step Circulatory ten_orbs ((create Circulatory initial_G)\<lparr>now := 2000\<rparr>)"
  let ?c = "physics_step Circulatory (butlast ten_orbs @ [PlayerPowerup, PlayerVirus 0])
              ((create Circulatory initial_G)\<lparr>now := 2000\<rparr>)"
  have n: "now (create Circulatory initial_G) \<le> 2000" by (simp add: now_initial)
  have ha: "before_update Circulatory ?a" by (rule before_updateI [OF reachable_initial n])
  have hb: "before_update Circulatory ?b" by (rule before_updateI [OF reachable_initial n])
  have hc: "before_update Circulatory ?c" by (rule before_updateI [OF reachable_initial n])
  have ea: "energy ?a = 10" "brain ?a" "\<not> virus_eaten ?a" "\<not> completed ?a" "stars ?a = 0"
    by (simp_all add: eval_defs ten_orbs_def)
  have eb: "energy ?b = 10" "\<not> brain ?b" "\<not> virus_eaten ?b"
    by (simp_all add: eval_defs ten_orbs_def)
  have ec: "energy ?c = 9" "brain ?c" "virus_eaten ?c"
    by (simp_all add: eval_defs ten_orbs_def)
  have a: "completed (update Circulatory 16 standing ?a) \<and> stars (update Circulatory 16 standing ?a) = 1"
    using ea completion_iff_threshold_and_subgoal [OF ha, of 16 standing]
    by (simp del: update.simps fact1.simps fact2.simps)
  have b: "\<not> completed (update Circulatory 16 standing ?b)"
    using eb completion_iff_threshold_and_subgoal [OF hb, of 16 standing]
    by (simp del: update.simps fact1.simps fact2.simps)
  have c: "\<not> completed (update Circulatory 16 standing ?c)"
    using ec completion_iff_threshold_and_subgoal [OF hc, of 16 standing]
    by (simp del: update.simps fact1.simps fact2.simps)
  show ?thesis using ha hb hc a b c by blast
qed

section \<open>The power-mode timer\<close>


lemma complete_viruses [simp]:
  "viruses (complete L g) = viruses g"
  by (cases L) (simp_all add: complete_def addStars_def addFact_def Let_def)

lemma applyMoveAndJump_viruses [simp]:
  "viruses (applyMoveAndJump c g) = viruses g"
  by (simp add: applyMoveAndJump_def Let_def)








lemma scene_step_completed:
  assumes "completed g" "physics_paused g" "\<not> restart_pending g"
  shows "scene_step L t dt c ovs g = g\<lparr>now := t\<rparr>"
  using assms by (cases L) (simp_all add: scene_step_def frame_def physics_step_def process_queue_def)

lemma completed_in_power_fields:
  "powerMode completed_in_power" "completed completed_in_power" "physics_paused completed_in_power"
  "\<not> restart_pending completed_in_power" "powerTimer completed_in_power = 5984"
  "now completed_in_power = 2000"
  by (simp_all add: completed_in_power_def eval_defs ten_orbs_def)



section \<open>The damage cooldown\<close>

lemma virus_handler_cases:
  "(health (virus_handler L i g) = health g \<and> lastHitAt (virus_handler L i g) = lastHitAt g) \<or>
   (HIT_COOLDOWN_MS \<le> now g - lastHitAt g \<and>
    health (virus_handler L i g) = max 0 (health g - 10) \<and> lastHitAt (virus_handler L i g) = now g)"
  by (simp add: virus_handler_def Let_def)

lemma on_overlap_cases:
  "(health (on_overlap L ov g) = health g \<and> lastHitAt (on_overlap L ov g) = lastHitAt g) \<or>
   (HIT_COOLDOWN_MS \<le> now g - lastHitAt g \<and>
    health (on_overlap L ov g) = max 0 (health g - 10) \<and> lastHitAt (on_overlap L ov g) = now g)"
proof (cases ov)
  case PlayerOrb
  then show ?thesis by (simp add: orb_handler_def Let_def)
next
  case PlayerPowerup
  then show ?thesis by (simp add: powerup_handler_def activatePower_def Let_def)
next
  case (PlayerVirus i)
  then show ?thesis using virus_handler_cases [of L i g] by simp
qed

lemma update_hit_fields [simp]:
  "health (update L dt c g) = health g" "lastHitAt (update L dt c g) = lastHitAt g"
  by (cases L; simp add: Let_def)+

lemma attempt_step_now:
  "now (attempt_step L ev g) = (case clock_of ev of None \<Rightarrow> now g | Some t \<Rightarrow> t)"
  by (cases ev) (simp_all add: keydown_UP_def del: update.simps)

lemma attempt_step_cases:
  "(health (attempt_step L ev g) = health g \<and> lastHitAt (attempt_step L ev g) = lastHitAt g) \<or>
   (HIT_COOLDOWN_MS \<le> now g - lastHitAt g \<and>
    health (attempt_step L ev g) = max 0 (health g - 10) \<and> lastHitAt (attempt_step L ev g) = now g)"
proof (cases ev)
  case (Contact ov)
  then show ?thesis using on_overlap_cases [of L ov g] by (simp add: physics_step_def)
qed (simp_all add: keydown_UP_def del: update.simps)

lemma no_hit_after_hit:
  assumes "t0 \<le> lastHitAt g" "t0 \<le> now g" "now g < t0 + HIT_COOLDOWN_MS"
          "within_window t0 HIT_COOLDOWN_MS evs"
  shows "health (run_attempt L evs g) = health g \<and> lastHitAt (run_attempt L evs g) = lastHitAt g"
  using assms
proof (induction evs arbitrary: g)
  case Nil
  then show ?case by (simp add: run_attempt_def)
next
  case (Cons ev evs)
  let ?g = "attempt_step L ev g"
  from Cons.prems have w: "within_window t0 HIT_COOLDOWN_MS evs"
    and n: "t0 \<le> now ?g" "now ?g < t0 + HIT_COOLDOWN_MS"
    by (auto simp: within_window_def attempt_step_now split: option.splits)
  from Cons.prems(1-3) attempt_step_cases [of L ev g]
  have s: "health ?g = health g" "lastHitAt ?g = lastHitAt g" by auto
  with Cons.IH [of ?g] Cons.prems(1) w n show ?case by (simp add: run_attempt_def)
qed

lemma at_most_one_hit:
  assumes "t0 \<le> now g" "now g < t0 + HIT_COOLDOWN_MS" "within_window t0 HIT_COOLDOWN_MS evs"
  shows "health (run_attempt L evs g) = health g \<or> health (run_attempt L evs g) = max 0 (health g - 10)"
  using assms
proof (induction evs arbitrary: g)
  case Nil
  then show ?case by (simp add: run_attempt_def)
next
  case (Cons ev evs)
  let ?g = "attempt_step L ev g"
  from Cons.prems have w: "within_window t0 HIT_COOLDOWN_MS evs"
    and n: "t0 \<le> now ?g" "now ?g < t0 + HIT_COOLDOWN_MS"
    by (auto simp: within_window_def attempt_step_now split: option.splits)
  have r: "run_attempt L (ev # evs) g = run_attempt L evs ?g" by (simp add: run_attempt_def)
  from attempt_step_cases [of L ev g] show ?case
  proof
    assume "health ?g = health g \<and> lastHitAt ?g = lastHitAt g"
    with Cons.IH [OF n w] show ?thesis by (simp add: r)
  next
    assume h: "HIT_COOLDOWN_MS \<le> now g - lastHitAt g \<and> health ?g = max 0 (health g - 10) \<and> lastHitAt ?g = now g"
    with Cons.prems(1) have "t0 \<le> lastHitAt ?g" by simp
    from no_hit_after_hit [OF this n w, of L] h show ?thesis by (simp add: r)
  qed
qed


lemma virus_handler_cooldown:
  "hostile j s \<Longrightarrow> now s - lastHitAt s < HIT_COOLDOWN_MS \<Longrightarrow> virus_handler L j s = s"
  by (auto simp: hostile_def virus_handler_def Let_def)


text \<open>
  C5, as amended. Take any state in which a handler of a level can run and any events of
  the same level attempt that follow while the clock stays within 650 ms of that state's
  time. Over all contacts among them at most one 10-point decrement is applied. If the
  first event is a hostile contact that is not itself within 650 ms of the last recorded
  hit, it subtracts exactly 10 and records the time, and health stays 10 lower through all
  the following events: every further contact in the window is ignored. In any state, a
  hostile contact within 650 ms of the last recorded hit changes nothing.
\<close>

theorem hit_cooldown:
  assumes "before_update L g" "within_window (now g) HIT_COOLDOWN_MS evs"
  shows "(health (run_attempt L evs g) = health g \<or> health (run_attempt L evs g) = health g - 10) \<and>
         (hostile i g \<and> \<not> physics_paused g \<and> HIT_COOLDOWN_MS \<le> now g - lastHitAt g \<longrightarrow>
            health (virus_handler L i g) = health g - 10 \<and>
            lastHitAt (virus_handler L i g) = now g \<and>
            health (run_attempt L (Contact (PlayerVirus i) # evs) g) = health g - 10) \<and>
         (\<forall>j s. hostile j s \<and> now s - lastHitAt s < HIT_COOLDOWN_MS \<longrightarrow> virus_handler L j s = s)"
proof -
  from before_update_inv [OF assms(1)] have inv: "level_inv L g" "\<not> restart_pending g" by simp_all
  have w0: "now g \<le> now g" "now g < now g + HIT_COOLDOWN_MS" by (simp_all add: HIT_COOLDOWN_MS_def)
  have a: "health (run_attempt L evs g) = health g \<or> health (run_attempt L evs g) = health g - 10"
  proof (cases "health g \<le> 0")
    case True
    with inv have "now g \<le> lastHitAt g" by (simp add: level_inv_def)
    from no_hit_after_hit [OF this w0 assms(2), of L] show ?thesis by simp
  next
    case False
    with inv have "10 \<le> health g" by (auto simp: level_inv_def)
    with at_most_one_hit [OF w0 assms(2), of L] show ?thesis by auto
  qed
  have b: "health (virus_handler L i g) = health g - 10 \<and>
           lastHitAt (virus_handler L i g) = now g \<and>
           health (run_attempt L (Contact (PlayerVirus i) # evs) g) = health g - 10"
    if h: "hostile i g" "\<not> physics_paused g" "HIT_COOLDOWN_MS \<le> now g - lastHitAt g"
  proof -
    from h(3) have "lastHitAt g \<noteq> now g" by (simp add: HIT_COOLDOWN_MS_def)
    with inv have "10 \<le> health g" by (auto simp: level_inv_def)
    with virus_handler_hit [of i g L] h
    have v: "health (virus_handler L i g) = health g - 10" "lastHitAt (virus_handler L i g) = now g"
      by simp_all
    have nv: "now (virus_handler L i g) = now g"
      using now_on_overlap [of L "PlayerVirus i" g] h(1) by (simp add: hostile_def)
    have r: "run_attempt L (Contact (PlayerVirus i) # evs) g = run_attempt L evs (virus_handler L i g)"
      using h(1,2) by (simp add: run_attempt_def physics_step_def hostile_def)
    have "now g \<le> lastHitAt (virus_handler L i g)" by (simp add: v)
    from no_hit_after_hit [OF this _ _ assms(2), of L] w0 nv v show ?thesis
      by (simp add: r)
  qed
  show ?thesis using a b virus_handler_cooldown by blast
qed


text \<open>
  A first hostile contact at 2000 ms, then contacts at 2100 ms and 2600 ms: health goes from
  100 to 90 and stays there.
\<close>

theorem hit_cooldown_witness:
  "before_update Circulatory (physics_step Circulatory [] ((create Circulatory initial_G)\<lparr>now := 2000\<rparr>)) \<and>
   within_window (now (physics_step Circulatory [] ((create Circulatory initial_G)\<lparr>now := 2000\<rparr>))) HIT_COOLDOWN_MS
     [ClockTo 2100, Contact (PlayerVirus 0), ClockTo 2600, Contact (PlayerVirus 1)] \<and>
   hostile 0 (physics_step Circulatory [] ((create Circulatory initial_G)\<lparr>now := 2000\<rparr>)) \<and>
   health (physics_step Circulatory [] ((create Circulatory initial_G)\<lparr>now := 2000\<rparr>)) = 100 \<and>
   health (run_attempt Circulatory
     (Contact (PlayerVirus 0) # [ClockTo 2100, Contact (PlayerVirus 0), ClockTo 2600, Contact (PlayerVirus 1)])
     (physics_step Circulatory [] ((create Circulatory initial_G)\<lparr>now := 2000\<rparr>))) = 90"
proof -
  let ?g = "physics_step Circulatory [] ((create Circulatory initial_G)\<lparr>now := 2000\<rparr>)"
  have n: "now (create Circulatory initial_G) \<le> 2000" by (simp add: now_initial)
  have h: "before_update Circulatory ?g" by (rule before_updateI [OF reachable_initial n])
  have w: "within_window (now ?g) HIT_COOLDOWN_MS [ClockTo 2100, Contact (PlayerVirus 0), ClockTo 2600, Contact (PlayerVirus 1)]"
    by (simp add: within_window_def HIT_COOLDOWN_MS_def)
  have e: "hostile 0 ?g" "\<not> physics_paused ?g" "HIT_COOLDOWN_MS \<le> now ?g - lastHitAt ?g" "health ?g = 100"
    by (simp_all add: hostile_def eval_defs)
  show ?thesis using h w e hit_cooldown [OF h w, of 0]
    by simp
qed


lemma hit_once_fields:
  "health hit_once = 90" "lastHitAt hit_once = 2000" "now hit_once = 2000" "\<not> physics_paused hit_once"
  "\<not> powerMode hit_once" "viruses hit_once = [new_virus, new_virus]"
  by (simp_all add: hit_once_def eval_defs)

lemma hit_once_reachable: "reachable Circulatory hit_once"
  unfolding hit_once_def
  by (rule reachable_run_frames [OF reachable_initial]) (simp add: now_initial)


text \<open>
  The claim as stated, exactly one decrement for any two hostile contacts less than 650 ms
  apart with the first one landing, fails when the first of the two is itself inside the
  cooldown of an earlier hit: after a hit at 2000 ms, the contacts at 2100 ms and 2200 ms
  are both hostile and both ignored, so no decrement is applied.
\<close>

theorem hit_cooldown_counterexample:
  "before_update Circulatory (physics_step Circulatory [] (hit_once\<lparr>now := 2100\<rparr>)) \<and>
   hostile 0 (physics_step Circulatory [] (hit_once\<lparr>now := 2100\<rparr>)) \<and>
   hostile 0 (run_attempt Circulatory [Contact (PlayerVirus 0), ClockTo 2200]
                (physics_step Circulatory [] (hit_once\<lparr>now := 2100\<rparr>))) \<and>
   (2200::real) - 2100 < HIT_COOLDOWN_MS \<and>
   health (run_attempt Circulatory [Contact (PlayerVirus 0), ClockTo 2200, Contact (PlayerVirus 0)]
             (physics_step Circulatory [] (hit_once\<lparr>now := 2100\<rparr>)))
     = health (physics_step Circulatory [] (hit_once\<lparr>now := 2100\<rparr>))"
proof -
  have n: "now hit_once \<le> 2100" by (simp add: hit_once_fields)
  have h: "before_update Circulatory (physics_step Circulatory [] (hit_once\<lparr>now := 2100\<rparr>))"
    by (rule before_updateI [OF hit_once_reachable n])
  have m: "physics_step Circulatory [] (hit_once\<lparr>now := 2100\<rparr>) = hit_once\<lparr>now := 2100\<rparr>"
    by (simp add: physics_step_def)
  show ?thesis using h
    by (simp add: m run_attempt_def physics_step_def virus_handler_def hostile_def hit_once_fields
        new_virus_def HIT_COOLDOWN_MS_def Let_def)
qed

section \<open>The hub: repairing the heart\<close>




lemma hub_heart_repaired:
  "hub_state s \<Longrightarrow> systems_heart s \<and> \<not> heartBtn_enabled s \<and> press_heartBtn s = s"
proof (induction rule: hub_state.induct)
  case (hub_enter g)
  then show ?case by (simp add: BodyMap_create_def press_heartBtn_def)
next
  case (hub_press s)
  then show ?case by simp
qed

lemma completed_in_power_progress: "stars completed_in_power = 1" "systems_heart completed_in_power"
  by (simp_all add: completed_in_power_def eval_defs ten_orbs_def)

lemma lungs_run_completed:
  "completed (run_frames Lungs [(4000, 16, standing, ten_orbs @ [PlayerOrb, PlayerOrb, PlayerPowerup])]
     (create Lungs g))"
  by (simp add: eval_defs ten_orbs_def)

lemma lungs_run_heart:
  "systems_heart (run_frames Lungs [(4000, 16, standing, ten_orbs @ [PlayerOrb, PlayerOrb, PlayerPowerup])]
     (create Lungs g)) = systems_heart g"
  by (simp add: eval_defs ten_orbs_def)

lemma hub_after_both_levels_state: "hub_state hub_after_both_levels"
  unfolding hub_after_both_levels_def
proof (rule hub_state.hub_enter)
  have "reachable Lungs (create Lungs completed_in_power)"
    by (rule reachable.enter) (simp add: completed_in_power_progress)
  then show "reachable Lungs
     (run_frames Lungs [(4000, 16, standing, ten_orbs @ [PlayerOrb, PlayerOrb, PlayerPowerup])]
        (create Lungs completed_in_power))"
    by (rule reachable_run_frames) (simp add: create_fields completed_in_power_fields)
qed (simp_all only: lungs_run_completed lungs_run_heart completed_in_power_progress)

lemma hub_after_both_levels_press: "press_heartBtn hub_after_both_levels = hub_after_both_levels"
  using hub_heart_repaired [OF hub_after_both_levels_state] by simp



section \<open>The progress store\<close>

lemma get_prop_defined:
  assumes "v \<noteq> JUndefined" "v \<noteq> JNull"
  shows "\<exists>x. get_prop v k = Inr x"
  using assms by (cases v) simp_all

lemma opt_chain_total: "\<exists>x. opt_chain v k = Inr x"
  using get_prop_defined [of v k] by (auto simp: opt_chain_def)

lemma truthy_defined: "truthy v \<Longrightarrow> v \<noteq> JUndefined \<and> v \<noteq> JNull"
  by (cases v) simp_all

lemma load_never_throws: "\<exists>G'. load JSON_parse slot G = Inr G'"
proof (cases "truthy (loadProgress JSON_parse slot)")
  case False
  then show ?thesis by (simp add: load_def Let_def)
next
  case True
  let ?p = "loadProgress JSON_parse slot"
  from truthy_defined [OF True] get_prop_defined [of ?p]
  obtain st sy f where p: "get_prop ?p ''stars'' = Inr st" "get_prop ?p ''systems'' = Inr sy"
      "get_prop ?p ''facts'' = Inr f"
    by metis
  from opt_chain_total obtain h l where c: "opt_chain sy ''heart'' = Inr h" "opt_chain sy ''lungs'' = Inr l"
    by metis
  show ?thesis using True p c by (simp add: load_def Let_def)
qed



text \<open>
  \<open>load\<close> never throws: for every parser result, every slot content and every \<open>G\<close> it
  returns normally. When the slot is absent, holds the empty string or holds a text that
  \<open>JSON.parse\<close> rejects, the progress fields keep their defaults: 0 stars, no system
  unlocked, no facts. (\<open>JSON.parse("null")\<close> is \<open>null\<close>.)
\<close>

lemma load_returns_normally:
  assumes "JSON_parse ''null'' = Some JNull"
  shows "(slot = None \<or> (\<exists>t. slot = Some t \<and> (t = [] \<or> JSON_parse t = None))
            \<longrightarrow> load JSON_parse slot fresh_progress = Inr fresh_progress) \<and>
         (\<exists>G'. load JSON_parse slot G = Inr G')"
proof -
  have "loadProgress JSON_parse slot = JNull"
    if "slot = None \<or> (\<exists>t. slot = Some t \<and> (t = [] \<or> JSON_parse t = None))"
    using that assms by (auto simp: loadProgress_def)
  then show ?thesis using load_never_throws [of JSON_parse slot G]
    by (auto simp: load_def Let_def)
qed


text \<open>
  An absent slot and a truncated text both leave the defaults; the text of the sample
  session is read back.
\<close>

lemma load_samples:
  "sample_parse ''null'' = Some JNull \<and>
   load sample_parse None fresh_progress = Inr fresh_progress \<and>
   load sample_parse (Some ''{stars:'') fresh_progress = Inr fresh_progress \<and>
   load sample_parse (Some sample_text) fresh_progress = Inr (snapshot sample_session)"
proof -
  have p: "sample_parse ''null'' = Some JNull"
    by (simp add: sample_parse_def sample_text_def quoted_def)
  have u: "sample_parse ''{stars:'' = None"
    by (simp add: sample_parse_def sample_text_def quoted_def)
  have a: "load sample_parse None fresh_progress = Inr fresh_progress"
    using load_returns_normally [where JSON_parse = sample_parse and slot = None, OF p] by simp
  have b: "load sample_parse (Some ''{stars:'') fresh_progress = Inr fresh_progress"
    using load_returns_normally [where JSON_parse = sample_parse and slot = "Some ''{stars:''", OF p] u by simp
  have c: "load sample_parse (Some sample_text) fresh_progress = Inr (snapshot sample_session)"
    by (simp add: load_def loadProgress_def sample_parse_def Let_def progress_json_def opt_chain_def
        nullish_def snapshot_def fresh_progress_def sample_session_def initial_G_def)
       (simp add: sample_text_def quoted_def)
  show ?thesis using p a b c by simp
qed


lemma list_all_last_five: "list_all P xs \<Longrightarrow> list_all P (last_five xs)"
  by (auto simp: last_five_def list_all_iff dest: in_set_dropD)

lemma snapshot_renders: "page_renders (snapshot g)"
proof -
  have "list_all valid_child (map JStr (facts g))" by (simp add: list_all_iff)
  then show ?thesis by (simp add: page_renders_def snapshot_def list_all_last_five)
qed

text \<open>
  C9. The claim ends with: no input to \<open>load\<close> can make it throw or produce a user-visible
  failure. \<open>load\<close> does not throw, and an absent or unparsable slot leaves the defaults, but
  a slot that parses is not always harmless. For the stored record \<open>{"facts":[{"a":1}]}\<close>
  \<open>load\<close> returns normally and takes the array as the learned facts, since it only asks
  whether \<open>facts\<close> is an array; the page then has an object to render as a fact, which it
  cannot.
\<close>

theorem load_takes_object_facts:
  "load object_facts_parse (Some object_facts_text) fresh_progress
     = Inr (fresh_progress\<lparr>js_facts := [JObj [(''a'', JNum 1)]]\<rparr>) \<and>
   \<not> page_renders (fresh_progress\<lparr>js_facts := [JObj [(''a'', JNum 1)]]\<rparr>)"
proof -
  have t: "object_facts_text \<noteq> []" by (simp add: object_facts_text_def)
  have l: "loadProgress object_facts_parse (Some object_facts_text)
             = JObj [(''facts'', JArr [JObj [(''a'', JNum 1)]])]"
    using t by (simp add: loadProgress_def object_facts_parse_def)
  have a: "load object_facts_parse (Some object_facts_text) fresh_progress
             = Inr (fresh_progress\<lparr>js_facts := [JObj [(''a'', JNum 1)]]\<rparr>)"
    by (simp add: load_def l Let_def opt_chain_def nullish_def fresh_progress_def)
  have b: "\<not> page_renders (fresh_progress\<lparr>js_facts := [JObj [(''a'', JNum 1)]]\<rparr>)"
    by (simp add: page_renders_def last_five_def)
  show ?thesis using a b by simp
qed

text \<open>
  C7. \<open>persist\<close> stores the object \<open>{stars, systems, facts}\<close> of the session; when the slot
  holds the text \<open>JSON.stringify\<close> made of it (never empty) and \<open>JSON.parse\<close> gives that
  object back, \<open>load\<close> on a fresh \<open>G\<close> yields exactly the snapshot of the session: the same
  star count, the same two system flags and the same list of facts.
\<close>

theorem persist_load_roundtrip:
  assumes "JSON_stringify (progress_json g) \<noteq> []"
          "JSON_parse (JSON_stringify (progress_json g)) = Some (progress_json g)"
  shows "stored (persist g) = Some (progress_json g) \<and>
         load JSON_parse (map_option JSON_stringify (stored (persist g))) fresh_progress = Inr (snapshot g)"
  using assms
  by (simp add: persist_def load_def loadProgress_def Let_def)
     (simp add: progress_json_def opt_chain_def nullish_def snapshot_def fresh_progress_def)


text \<open>The sample session and its JSON text.\<close>

theorem persist_load_roundtrip_witness:
  "sample_stringify (progress_json sample_session) \<noteq> [] \<and>
   sample_parse (sample_stringify (progress_json sample_session)) = Some (progress_json sample_session) \<and>
   load sample_parse (map_option sample_stringify (stored (persist sample_session))) fresh_progress
     = Inr \<lparr>js_stars = JNum 3, js_heart = True, js_lungs = False,
            js_facts = [JStr ''The heart pumps ~100,000 times per day.'']\<rparr>"
proof -
  have a: "sample_stringify (progress_json sample_session) \<noteq> []"
    by (simp add: sample_stringify_def sample_text_def)
  have b: "sample_parse (sample_stringify (progress_json sample_session)) = Some (progress_json sample_session)"
    by (simp add: sample_stringify_def sample_parse_def)
  have c: "snapshot sample_session = \<lparr>js_stars = JNum 3, js_heart = True, js_lungs = False,
            js_facts = [JStr ''The heart pumps ~100,000 times per day.'']\<rparr>"
    by (simp add: snapshot_def sample_session_def initial_G_def)
  show ?thesis
    using a b persist_load_roundtrip [where JSON_stringify = sample_stringify and JSON_parse = sample_parse
        and g = sample_session, OF a b]
    by (simp add: c)
qed

section \<open>The session score\<close>

lemma score_on_overlap: "score g \<le> score (on_overlap L ov g)"
proof (cases ov)
  case PlayerOrb
  then show ?thesis by (simp add: orb_handler_def Let_def)
next
  case PlayerPowerup
  then show ?thesis by (cases L) (simp_all add: powerup_handler_def activatePower_def Let_def)
next
  case (PlayerVirus i)
  then show ?thesis by (cases L) (simp_all add: virus_handler_def Let_def)
qed

lemma score_fold_overlap: "score g \<le> score (fold (on_overlap L) ovs g)"
proof (induction ovs arbitrary: g)
  case Nil
  show ?case by simp
next
  case (Cons ov ovs)
  from score_on_overlap [of g L ov] Cons.IH [of "on_overlap L ov g"] show ?case by simp
qed

lemma score_update [simp]: "score (update L dt c g) = score g"
  by (cases L) (simp_all add: Let_def)

lemma score_scene_step: "score g \<le> score (scene_step L t dt c ovs g)"
  using score_fold_overlap [of "g\<lparr>now := t\<rparr>" L ovs]
  by (simp add: scene_step_def process_queue_def frame_def physics_step_def create_fields del: update.simps)


text \<open>
  C10. \<open>resetStatsForLevel\<close> sets health to 100, energy to 0 and power mode off with timer 0
  and leaves the score as it is. \<open>create\<close> of a level does the same, so every level entry
  starts with health 100, energy 0 and power mode off and with the score the session had
  before, whether from an earlier level or an earlier attempt. When \<open>update\<close> finds health at
  0 it queues the restart, and the restarted level has health 100, energy 0, power mode
  off with timer 0 and the score of the moment of death. Through a whole frame, restart
  included, the score never goes down. The object that \<open>persist\<close> stores does not depend on
  the score.
\<close>

theorem reset_keeps_score:
  "health (resetStatsForLevel g) = 100 \<and> energy (resetStatsForLevel g) = 0 \<and>
   \<not> powerMode (resetStatsForLevel g) \<and> powerTimer (resetStatsForLevel g) = 0 \<and>
   score (resetStatsForLevel g) = score g \<and>
   health (create L g) = 100 \<and> energy (create L g) = 0 \<and>
   \<not> powerMode (create L g) \<and> powerTimer (create L g) = 0 \<and>
   score (create L g) = score g \<and>
   (before_update L m \<and> health m = 0 \<longrightarrow>
      restart_pending (update L dt c m) \<and>
      health (process_queue L (update L dt c m)) = 100 \<and>
      energy (process_queue L (update L dt c m)) = 0 \<and>
      \<not> powerMode (process_queue L (update L dt c m)) \<and>
      powerTimer (process_queue L (update L dt c m)) = 0 \<and>
      score (process_queue L (update L dt c m)) = score m) \<and>
   score (process_queue L (update L dt c g)) = score g \<and>
   score g \<le> score (scene_step L t dt c ovs g) \<and>
   progress_json (g\<lparr>score := x\<rparr>) = progress_json g \<and>
   stored (persist (g\<lparr>score := x\<rparr>)) = stored (persist g)"
proof -
  have restart: "restart_pending (update L dt c m)" if "before_update L m" "health m = 0"
  proof -
    from before_update_inv [OF that(1)] have "level_inv L m" "\<not> restart_pending m" by simp_all
    from update_restart [OF this] that(2) show ?thesis by simp
  qed
  show ?thesis
    using score_scene_step [of g L t dt c ovs] restart
    by (simp add: resetStatsForLevel_def create_fields process_queue_def persist_def progress_json_def
        del: update.simps)
qed

text \<open>
  A session that enters the Circulatory level with a score of 310 and takes ten hits one
  second apart: at the tenth the health is 0 with the score still 310, the tick queues
  the restart, and the restarted level has health 100 and the score 310.
\<close>

theorem reset_keeps_score_witness:
  "before_update Circulatory
     (physics_step Circulatory [PlayerVirus 0]
        ((run_frames Circulatory nine_hits (create Circulatory (initial_G\<lparr>score := 310\<rparr>)))\<lparr>now := 10000\<rparr>)) \<and>
   health (physics_step Circulatory [PlayerVirus 0]
        ((run_frames Circulatory nine_hits (create Circulatory (initial_G\<lparr>score := 310\<rparr>)))\<lparr>now := 10000\<rparr>)) = 0 \<and>
   score (physics_step Circulatory [PlayerVirus 0]
        ((run_frames Circulatory nine_hits (create Circulatory (initial_G\<lparr>score := 310\<rparr>)))\<lparr>now := 10000\<rparr>)) = 310 \<and>
   health (process_queue Circulatory (update Circulatory 16 standing (physics_step Circulatory [PlayerVirus 0]
        ((run_frames Circulatory nine_hits (create Circulatory (initial_G\<lparr>score := 310\<rparr>)))\<lparr>now := 10000\<rparr>)))) = 100 \<and>
   score (process_queue Circulatory (update Circulatory 16 standing (physics_step Circulatory [PlayerVirus 0]
        ((run_frames Circulatory nine_hits (create Circulatory (initial_G\<lparr>score := 310\<rparr>)))\<lparr>now := 10000\<rparr>)))) = 310 \<and>
   health (create Lungs (initial_G\<lparr>score := 310, health := 40\<rparr>)) = 100 \<and>
   score (create Lungs (initial_G\<lparr>score := 310, health := 40\<rparr>)) = 310"
proof -
  let ?s = "create Circulatory (initial_G\<lparr>score := 310\<rparr>)"
  let ?g = "run_frames Circulatory nine_hits ?s"
  let ?m = "physics_step Circulatory [PlayerVirus 0] (?g\<lparr>now := 10000\<rparr>)"
  have s: "reachable Circulatory ?s"
    by (rule reachable.enter) (simp add: initial_G_def)
  have r: "reachable Circulatory ?g"
    by (rule reachable_run_frames [OF s]) (simp add: create_fields initial_G_def nine_hits_def)
  have n: "now ?g \<le> 10000"
    by (simp add: nine_hits_def)
  have h: "before_update Circulatory ?m"
    by (rule before_updateI [OF r n])
  have z: "health ?m = 0" "score ?m = 310"
    by (simp_all add: eval_defs nine_hits_def)
  have a: "health (process_queue Circulatory (update Circulatory 16 standing ?m)) = 100 \<and>
           score (process_queue Circulatory (update Circulatory 16 standing ?m)) = 310"
    using h z reset_keeps_score [where L = Circulatory and m = ?m and dt = 16 and c = standing]
    by (simp del: update.simps)
  have b: "health (create Lungs (initial_G\<lparr>score := 310, health := 40\<rparr>)) = 100 \<and>
           score (create Lungs (initial_G\<lparr>score := 310, health := 40\<rparr>)) = 310"
    using reset_keeps_score [where L = Lungs and g = "initial_G\<lparr>score := 310, health := 40\<rparr>"]
    by (simp add: initial_G_def del: update.simps)
  show ?thesis using h z a b by blast
qed

section \<open>Jump buffering and coyote time\<close>

lemma applyMoveAndJump_yes:
  assumes "now g - jumpBufferTime g \<le> JUMP_BUFFER_MS" "onGround c \<or> now g - coyoteTime g \<le> COYOTE_TIME_MS"
  shows "velocityY (applyMoveAndJump c g) = JUMP_VELOCITY"
        "jumpBufferTime (applyMoveAndJump c g) = 0" "coyoteTime (applyMoveAndJump c g) = 0"
  using assms by (auto simp: applyMoveAndJump_def Let_def COYOTE_TIME_MS_def)

lemma applyMoveAndJump_no:
  assumes "\<not> (now g - jumpBufferTime g \<le> JUMP_BUFFER_MS \<and> (onGround c \<or> now g - coyoteTime g \<le> COYOTE_TIME_MS))"
  shows "velocityY (applyMoveAndJump c g) = velocityY g"
        "jumpBufferTime (applyMoveAndJump c g) = jumpBufferTime g"
        "coyoteTime (applyMoveAndJump c g) = (if onGround c then now g else coyoteTime g)"
  using assms by (auto simp: applyMoveAndJump_def Let_def COYOTE_TIME_MS_def)

lemma applyMoveAndJump_buffer:
  "jumpBufferTime g = 0 \<Longrightarrow> jumpBufferTime (applyMoveAndJump c g) = 0"
  by (simp add: applyMoveAndJump_def Let_def)

lemma complete_jumpBufferTime: "jumpBufferTime (complete L s) = jumpBufferTime s"
  by (cases L) (simp_all add: complete_def addStars_def addFact_def persist_def Let_def)

lemma jumpBufferTime_cleared_step:
  assumes "jumpBufferTime g = 0" "ev \<noteq> KeyUp"
  shows "jumpBufferTime (attempt_step L ev g) = 0"
proof (cases ev)
  case (ClockTo t)
  then show ?thesis using assms by simp
next
  case (Contact ov)
  have "jumpBufferTime (on_overlap L ov g) = jumpBufferTime g"
    by (cases ov) (simp_all add: orb_handler_def powerup_handler_def activatePower_def virus_handler_def Let_def)
  then show ?thesis using assms Contact by (simp add: physics_step_def)
next
  case (UpdateTick dt c)
  have p: "jumpBufferTime (power_tick dt g) = 0"
    using assms(1) by (simp add: power_tick_def endPower_def Let_def)
  have a: "jumpBufferTime (applyMoveAndJump c (power_tick dt g)) = 0"
    using p by (rule applyMoveAndJump_buffer)
  have r: "jumpBufferTime (complete K (s\<lparr>restart_pending := True\<rparr>)) = jumpBufferTime s" for s K
    using complete_jumpBufferTime [of K "s\<lparr>restart_pending := True\<rparr>"] by simp
  show ?thesis using UpdateTick assms(1) a p
    by (cases L) (auto simp: Let_def complete_jumpBufferTime r)
next
  case KeyUp
  then show ?thesis using assms by simp
qed

lemma jumpBufferTime_cleared_run:
  assumes "jumpBufferTime g = 0" "no_key_press evs"
  shows "jumpBufferTime (run_attempt L evs g) = 0"
  using assms
proof (induction evs arbitrary: g)
  case Nil
  then show ?case by (simp add: run_attempt_def)
next
  case (Cons ev evs)
  from Cons.prems have "jumpBufferTime (attempt_step L ev g) = 0" "no_key_press evs"
    by (simp_all add: no_key_press_def jumpBufferTime_cleared_step)
  from Cons.IH [OF this] show ?case by (simp add: run_attempt_def)
qed

lemma now_run_attempt:
  assumes "w < now g" "clock_beyond w evs"
  shows "w < now (run_attempt L evs g)"
  using assms
proof (induction evs arbitrary: g)
  case Nil
  then show ?case by (simp add: run_attempt_def)
next
  case (Cons ev evs)
  have n: "now (attempt_step L ev g) = (case clock_of ev of None \<Rightarrow> now g | Some t \<Rightarrow> t)"
    by (rule attempt_step_now)
  from Cons.prems have "w < now (attempt_step L ev g)" "clock_beyond w evs"
    by (auto simp: clock_beyond_def n split: option.splits)
  from Cons.IH [OF this] show ?case by (simp add: run_attempt_def)
qed


text \<open>
  C8. \<open>jumpBufferTime\<close> holds the time recorded by the last press of the jump key and
  \<open>coyoteTime\<close> the time recorded at the last tick on solid ground. On a tick the jump
  executes, that is the vertical velocity is set to the jump impulse, if and only if the
  recorded press is at most 140 ms before the time of the tick and the player is on the
  ground at the tick or was at most 140 ms before it; otherwise the velocity and the
  recorded press are untouched. When the jump executes both recorded times are cleared.
  The cleared value is 0, so once the clock is past 140 ms (a level scene starts after a
  travel scene of 1800 ms) a jump means that a press, and unless the player stands on the
  ground a ground contact, is really recorded, and through any later events without a new
  press no tick jumps again: one press gives at most one jump.
\<close>

theorem jump_needs_buffer_and_coyote:
  "(if now g - jumpBufferTime g \<le> JUMP_BUFFER_MS \<and> (onGround c \<or> now g - coyoteTime g \<le> COYOTE_TIME_MS)
    then velocityY (applyMoveAndJump c g) = JUMP_VELOCITY \<and>
         jumpBufferTime (applyMoveAndJump c g) = 0 \<and> coyoteTime (applyMoveAndJump c g) = 0 \<and>
         (JUMP_BUFFER_MS < now g \<longrightarrow>
            jumpBufferTime g \<noteq> 0 \<and> (onGround c \<or> coyoteTime g \<noteq> 0) \<and>
            (\<forall>evs c'. no_key_press evs \<and> clock_beyond JUMP_BUFFER_MS evs \<longrightarrow>
               jumpBufferTime (run_attempt L evs (applyMoveAndJump c g)) = 0 \<and>
               velocityY (applyMoveAndJump c' (run_attempt L evs (applyMoveAndJump c g)))
                 = velocityY (run_attempt L evs (applyMoveAndJump c g))))
    else velocityY (applyMoveAndJump c g) = velocityY g \<and>
         jumpBufferTime (applyMoveAndJump c g) = jumpBufferTime g \<and>
         coyoteTime (applyMoveAndJump c g) = (if onGround c then now g else coyoteTime g)) \<and>
   jumpBufferTime (keydown_UP g) = now g"
proof (cases "now g - jumpBufferTime g \<le> JUMP_BUFFER_MS \<and> (onGround c \<or> now g - coyoteTime g \<le> COYOTE_TIME_MS)")
  case False
  from applyMoveAndJump_no [OF False] False show ?thesis by (auto simp: keydown_UP_def)
next
  case True
  let ?j = "applyMoveAndJump c g"
  from True applyMoveAndJump_yes [of g c]
  have j: "velocityY ?j = JUMP_VELOCITY" "jumpBufferTime ?j = 0" "coyoteTime ?j = 0" by simp_all
  have nz: "jumpBufferTime g \<noteq> 0 \<and> (onGround c \<or> coyoteTime g \<noteq> 0)" if "JUMP_BUFFER_MS < now g"
    using True that by (auto simp: JUMP_BUFFER_MS_def COYOTE_TIME_MS_def)
  have nj: "now ?j = now g" by simp
  have later: "jumpBufferTime (run_attempt L evs ?j) = 0 \<and>
               velocityY (applyMoveAndJump c' (run_attempt L evs ?j)) = velocityY (run_attempt L evs ?j)"
    if e: "JUMP_BUFFER_MS < now g" "no_key_press evs" "clock_beyond JUMP_BUFFER_MS evs" for evs c'
  proof -
    let ?s = "run_attempt L evs ?j"
    from jumpBufferTime_cleared_run [OF j(2) e(2)] have b: "jumpBufferTime ?s = 0" .
    from now_run_attempt [of JUMP_BUFFER_MS ?j evs L] e(1,3) nj have "JUMP_BUFFER_MS < now ?s" by simp
    then have "\<not> (now ?s - jumpBufferTime ?s \<le> JUMP_BUFFER_MS \<and>
                 (onGround c' \<or> now ?s - coyoteTime ?s \<le> COYOTE_TIME_MS))"
      using b by simp
    from applyMoveAndJump_no(1) [OF this] b show ?thesis by simp
  qed
  show ?thesis using True j nz later by (simp add: keydown_UP_def)
qed

text \<open>
  A press at 2000 ms makes the tick at 2016 ms jump, on the ground or in the air 66 ms
  after the last ground contact, and clears the recorded press; two frames later no tick
  jumps; with no press the tick at 2016 ms does not jump.
\<close>

theorem jump_needs_buffer_and_coyote_witness:
  "velocityY (applyMoveAndJump standing
     ((keydown_UP ((create Circulatory initial_G)\<lparr>now := 2000\<rparr>))\<lparr>now := 2016\<rparr>)) = JUMP_VELOCITY \<and>
   jumpBufferTime (applyMoveAndJump standing
     ((keydown_UP ((create Circulatory initial_G)\<lparr>now := 2000\<rparr>))\<lparr>now := 2016\<rparr>)) = 0 \<and>
   velocityY (applyMoveAndJump airborne
     ((keydown_UP ((create Circulatory initial_G)\<lparr>now := 2000, coyoteTime := 1950\<rparr>))\<lparr>now := 2016\<rparr>)) = JUMP_VELOCITY \<and>
   JUMP_BUFFER_MS < now ((keydown_UP ((create Circulatory initial_G)\<lparr>now := 2000\<rparr>))\<lparr>now := 2016\<rparr>) \<and>
   no_key_press [ClockTo 2032, UpdateTick 16 standing, ClockTo 2048] \<and>
   clock_beyond JUMP_BUFFER_MS [ClockTo 2032, UpdateTick 16 standing, ClockTo 2048] \<and>
   jumpBufferTime (run_attempt Circulatory [ClockTo 2032, UpdateTick 16 standing, ClockTo 2048]
     (applyMoveAndJump standing
        ((keydown_UP ((create Circulatory initial_G)\<lparr>now := 2000\<rparr>))\<lparr>now := 2016\<rparr>))) = 0 \<and>
   velocityY (applyMoveAndJump standing ((create Circulatory initial_G)\<lparr>now := 2016\<rparr>)) = 0"
proof -
  let ?p = "(keydown_UP ((create Circulatory initial_G)\<lparr>now := 2000\<rparr>))\<lparr>now := 2016\<rparr>"
  let ?r = "(keydown_UP ((create Circulatory initial_G)\<lparr>now := 2000, coyoteTime := 1950\<rparr>))\<lparr>now := 2016\<rparr>"
  let ?q = "(create Circulatory initial_G)\<lparr>now := 2016\<rparr>"
  let ?evs = "[ClockTo 2032, UpdateTick 16 standing, ClockTo 2048]"
  have n: "JUMP_BUFFER_MS < now ?p"
    by (simp add: JUMP_BUFFER_MS_def)
  have e: "no_key_press ?evs" "clock_beyond JUMP_BUFFER_MS ?evs"
    by (simp_all add: no_key_press_def clock_beyond_def JUMP_BUFFER_MS_def)
  have p: "now ?p - jumpBufferTime ?p \<le> JUMP_BUFFER_MS" "onGround standing"
    by (simp_all add: keydown_UP_def JUMP_BUFFER_MS_def standing_def)
  have r: "now ?r - jumpBufferTime ?r \<le> JUMP_BUFFER_MS" "now ?r - coyoteTime ?r \<le> COYOTE_TIME_MS"
    by (simp_all add: keydown_UP_def JUMP_BUFFER_MS_def COYOTE_TIME_MS_def)
  have q: "\<not> now ?q - jumpBufferTime ?q \<le> JUMP_BUFFER_MS" "velocityY ?q = 0"
    by (simp_all add: create_fields JUMP_BUFFER_MS_def create_def enablePlayer_def enableCursors_def
        resetStatsForLevel_def Let_def)
  have a: "velocityY (applyMoveAndJump standing ?p) = JUMP_VELOCITY \<and>
           jumpBufferTime (applyMoveAndJump standing ?p) = 0 \<and>
           jumpBufferTime (run_attempt Circulatory ?evs (applyMoveAndJump standing ?p)) = 0"
    using p n e jump_needs_buffer_and_coyote [of ?p standing Circulatory] by simp
  have b: "velocityY (applyMoveAndJump airborne ?r) = JUMP_VELOCITY"
    using r jump_needs_buffer_and_coyote [of ?r airborne Circulatory] by simp
  have c: "velocityY (applyMoveAndJump standing ?q) = 0"
    using q jump_needs_buffer_and_coyote [of ?q standing Circulatory] by simp
  show ?thesis using n e a b c by blast
qed

end
